theory Spec2Isabelle
  imports Main "HOL-Library.Word"
begin

section \<open>The entitlement ledger: contracts/ClawCloudVMs.sol\<close>

text \<open>
  The contract is embedded as functions from a pre-state to either an error or a
  post-state. A Solidity transaction that reverts leaves no trace in storage, so a failing
  call carries no state: the caller keeps the state it had (\<open>commit\<close> below).

  \<^item> \<open>uint256\<close> is \<open>nat\<close>; Solidity 0.8 checks every \<open>+\<close> and \<open>*\<close> and panics with
    code 0x11 on overflow, which \<open>checked_add\<close> and \<open>checked_mul\<close> write out.
  \<^item> \<open>uint8\<close> is \<open>8 word\<close>, \<open>address\<close> is \<open>nat\<close> with \<open>address(0) = 0\<close>.
  \<^item> a \<open>mapping\<close> is a total function: an absent key reads as the zero value, and
    \<open>delete\<close> writes the zero value back.
  \<^item> \<open>require(c, m)\<close> that fails is \<open>Inl (Revert m)\<close> with the message of the source.
\<close>

type_synonym address = nat

datatype error = Revert string | Panic nat

definition MAX_UINT256 :: nat where
  "MAX_UINT256 = 2 ^ 256 - 1"

definition checked_add :: "nat \<Rightarrow> nat \<Rightarrow> error + nat" where
  "checked_add a b = (if a + b \<le> MAX_UINT256 then Inr (a + b) else Inl (Panic 17))"

definition checked_mul :: "nat \<Rightarrow> nat \<Rightarrow> error + nat" where
  "checked_mul a b = (if a * b \<le> MAX_UINT256 then Inr (a * b) else Inl (Panic 17))"

subsection \<open>Constants, enums and the VM struct\<close>

definition GRACE_PERIOD :: nat where
  "GRACE_PERIOD = 7 * 86400"

definition SECONDS_PER_MONTH :: nat where
  "SECONDS_PER_MONTH = 2629800"

definition TIER_MICRO_PRICE :: nat where "TIER_MICRO_PRICE = 5 * 10 ^ 6"
definition TIER_SMALL_PRICE :: nat where "TIER_SMALL_PRICE = 10 * 10 ^ 6"
definition TIER_MEDIUM_PRICE :: nat where "TIER_MEDIUM_PRICE = 25 * 10 ^ 6"
definition TIER_LARGE_PRICE :: nat where "TIER_LARGE_PRICE = 50 * 10 ^ 6"
definition TIER_XLARGE_PRICE :: nat where "TIER_XLARGE_PRICE = 100 * 10 ^ 6"

datatype Tier = MICRO | SMALL | MEDIUM | LARGE | XLARGE

datatype Status = PROVISIONING | ACTIVE | SUSPENDED | TERMINATED

record VM =
  tier :: Tier
  purchasedAt :: nat
  expiresAt :: nat
  durationMonths :: nat
  instanceId :: string
  ipAddress :: string
  status :: Status
  provisionedAt :: nat
  lastRenewal :: nat

text \<open>The zero value of the struct: what an unwritten or deleted slot of \<open>vms\<close> reads as.\<close>

definition zeroVM :: VM where
  "zeroVM = \<lparr> tier = MICRO, purchasedAt = 0, expiresAt = 0, durationMonths = 0,
              instanceId = [], ipAddress = [], status = PROVISIONING,
              provisionedAt = 0, lastRenewal = 0 \<rparr>"

datatype event =
    VMPurchased nat address Tier nat nat nat
  | VMProvisioned nat string string nat
  | VMRenewed nat nat nat nat
  | VMTerminated nat address nat
  | VMSuspended nat nat
  | VMReactivated nat nat
  | IPAddressUpdated nat string string
  | TreasuryUpdated address address
  | ProvisionerUpdated address address
  | EmergencyWithdraw address nat address

subsection \<open>The payment token\<close>

text \<open>
  \<open>paymentToken\<close> is an external ERC-20 contract (USDC). Its ledger is part of the
  modelled world so that "payment taken" and "no balance change" can be stated. The two
  entry points the contract calls follow the OpenZeppelin ERC-20: \<open>transferFrom\<close> first
  spends the allowance of the caller (unless it is the maximal one), then moves the balance.
\<close>

record erc20 =
  balances :: "address \<Rightarrow> nat"
  allowances :: "address \<Rightarrow> address \<Rightarrow> nat"

definition erc20_transfer :: "erc20 \<Rightarrow> address \<Rightarrow> address \<Rightarrow> nat \<Rightarrow> error + erc20" where
  "erc20_transfer tk from to amount =
     (if from = 0 then Inl (Revert ''ERC20: transfer from the zero address'')
      else if to = 0 then Inl (Revert ''ERC20: transfer to the zero address'')
      else if balances tk from < amount then Inl (Revert ''ERC20: transfer amount exceeds balance'')
      else
        let b1 = (balances tk)(from := balances tk from - amount);
            b2 = b1(to := b1 to + amount)
        in Inr (tk\<lparr>balances := b2\<rparr>))"

definition erc20_transferFrom ::
  "erc20 \<Rightarrow> address \<Rightarrow> address \<Rightarrow> address \<Rightarrow> nat \<Rightarrow> error + erc20" where
  "erc20_transferFrom tk spender from to amount =
     (let currentAllowance = allowances tk from spender in
      if currentAllowance \<noteq> MAX_UINT256 \<and> currentAllowance < amount
      then Inl (Revert ''ERC20: insufficient allowance'')
      else
        let tk1 = (if currentAllowance \<noteq> MAX_UINT256
                   then tk\<lparr>allowances := (allowances tk)
                          (from := (allowances tk from)(spender := currentAllowance - amount))\<rparr>
                   else tk)
        in erc20_transfer tk1 from to amount)"

subsection \<open>Contract storage and the call environment\<close>

text \<open>
  \<open>owners\<close>, \<open>tokenApprovals\<close> and \<open>operatorApprovals\<close> are the ownership registry the
  contract inherits from ERC721; \<open>admin\<close> is the owner of Ownable, \<open>paused\<close> the flag of
  Pausable. \<open>events\<close> is the log of the contract's own \<open>emit\<close> statements, oldest first.
  \<open>self\<close> is the contract's own address, the spender of the buyers' allowances.
\<close>

record state =
  self :: address
  paymentToken :: address
  token :: erc20
  treasury :: address
  provisioner :: address
  admin :: address
  paused :: bool
  tokenIdCounter :: nat
  owners :: "nat \<Rightarrow> address"
  tokenApprovals :: "nat \<Rightarrow> address"
  operatorApprovals :: "address \<Rightarrow> address \<Rightarrow> bool"
  vms :: "nat \<Rightarrow> VM"
  everProvisioned :: "nat \<Rightarrow> bool"
  events :: "event list"

text \<open>
  A call sees \<open>msg.sender\<close> and \<open>block.timestamp\<close>. \<open>hookOk\<close> is the answer of code
  outside the model that the call hands control to: the \<open>onERC721Received\<close> hook of a
  receiving contract (an externally owned account always accepts), or a transfer of ether
  or of a token other than \<open>paymentToken\<close>. The hook is taken not to call back into the
  contract, so \<open>nonReentrant\<close> never fires and is not written out.
\<close>

record env =
  sender :: address
  timestamp :: nat
  hookOk :: bool

definition commit :: "error + state \<Rightarrow> state \<Rightarrow> state" where
  "commit r s = (case r of Inl _ \<Rightarrow> s | Inr s' \<Rightarrow> s')"

text \<open>Sequencing of fallible steps: the first failure aborts the call.\<close>

definition and_then :: "error + 'a \<Rightarrow> ('a \<Rightarrow> error + 'b) \<Rightarrow> error + 'b" where
  "and_then r k = (case r of Inl err \<Rightarrow> Inl err | Inr x \<Rightarrow> k x)"

definition emit :: "event \<Rightarrow> state \<Rightarrow> state" where
  "emit ev s = s\<lparr>events := events s @ [ev]\<rparr>"

subsection \<open>Inherited ownership registry (ERC721)\<close>

definition exists_id :: "state \<Rightarrow> nat \<Rightarrow> bool" where
  "exists_id s tokenId = (owners s tokenId \<noteq> 0)"

definition ownerOf :: "state \<Rightarrow> nat \<Rightarrow> error + address" where
  "ownerOf s tokenId =
     (if owners s tokenId = 0 then Inl (Revert ''ERC721: invalid token ID'')
      else Inr (owners s tokenId))"

definition safeMint :: "env \<Rightarrow> address \<Rightarrow> nat \<Rightarrow> state \<Rightarrow> error + state" where
  "safeMint e to tokenId s =
     (if to = 0 then Inl (Revert ''ERC721: mint to the zero address'')
      else if exists_id s tokenId then Inl (Revert ''ERC721: token already minted'')
      else if \<not> hookOk e then Inl (Revert ''ERC721: transfer to non ERC721Receiver implementer'')
      else Inr (s\<lparr>owners := (owners s)(tokenId := to)\<rparr>))"

definition burn :: "nat \<Rightarrow> state \<Rightarrow> error + state" where
  "burn tokenId s =
     and_then (ownerOf s tokenId) (\<lambda>_.
       Inr (s\<lparr>tokenApprovals := (tokenApprovals s)(tokenId := 0),
              owners := (owners s)(tokenId := 0)\<rparr>))"

subsection \<open>purchaseVM\<close>

definition getTierPrice :: "Tier \<Rightarrow> error + nat" where
  "getTierPrice t =
     (if t = MICRO then Inr TIER_MICRO_PRICE
      else if t = SMALL then Inr TIER_SMALL_PRICE
      else if t = MEDIUM then Inr TIER_MEDIUM_PRICE
      else if t = LARGE then Inr TIER_LARGE_PRICE
      else if t = XLARGE then Inr TIER_XLARGE_PRICE
      else Inl (Revert ''Invalid tier''))"

text \<open>
  \<open>Tier(tier)\<close>: the conversion of an integer to the enum panics with code 0x21 when the
  integer names no member.
\<close>

definition Tier_of :: "8 word \<Rightarrow> error + Tier" where
  "Tier_of t =
     (if unat t = 0 then Inr MICRO
      else if unat t = 1 then Inr SMALL
      else if unat t = 2 then Inr MEDIUM
      else if unat t = 3 then Inr LARGE
      else if unat t = 4 then Inr XLARGE
      else Inl (Panic 33))"

definition purchaseVM :: "env \<Rightarrow> 8 word \<Rightarrow> nat \<Rightarrow> state \<Rightarrow> error + (nat \<times> state)" where
  "purchaseVM e tierIx months s =
     (if paused s then Inl (Revert ''Pausable: paused'')
      else if \<not> (unat tierIx \<le> 4) then Inl (Revert ''Invalid tier'')
      else if \<not> (months > 0 \<and> months \<le> 12) then Inl (Revert ''Duration must be 1-12 months'')
      else
        and_then (Tier_of tierIx) (\<lambda>t.
        and_then (getTierPrice t) (\<lambda>monthlyPrice.
        and_then (checked_mul monthlyPrice months) (\<lambda>totalCost.
        and_then (erc20_transferFrom (token s) (self s) (sender e) (treasury s) totalCost) (\<lambda>tk.
        and_then (checked_add (tokenIdCounter s) 1) (\<lambda>counter'.
        and_then (safeMint e (sender e) (tokenIdCounter s)
                    (s\<lparr>token := tk, tokenIdCounter := counter'\<rparr>)) (\<lambda>s2.
        and_then (checked_mul months SECONDS_PER_MONTH) (\<lambda>span.
        and_then (checked_add (timestamp e) span) (\<lambda>expires.
          let tokenId = tokenIdCounter s;
              vm = \<lparr> tier = t, purchasedAt = timestamp e, expiresAt = expires,
                     durationMonths = months, instanceId = [], ipAddress = [],
                     status = PROVISIONING, provisionedAt = 0,
                     lastRenewal = timestamp e \<rparr>;
              s3 = s2\<lparr>vms := (vms s2)(tokenId := vm)\<rparr>
          in Inr (tokenId,
                  emit (VMPurchased tokenId (sender e) t months expires totalCost) s3))))))))))"

subsection \<open>setVMProvisioned\<close>

definition setVMProvisioned :: "env \<Rightarrow> nat \<Rightarrow> string \<Rightarrow> string \<Rightarrow> state \<Rightarrow> error + state" where
  "setVMProvisioned e tokenId inst ip s =
     (if sender e \<noteq> provisioner s then Inl (Revert ''Only provisioner'')
      else if \<not> exists_id s tokenId then Inl (Revert ''VM does not exist'')
      else if status (vms s tokenId) \<noteq> PROVISIONING then Inl (Revert ''VM already provisioned'')
      else if \<not> timestamp e < expiresAt (vms s tokenId) then Inl (Revert ''VM expired'')
      else if \<not> length inst > 0 then Inl (Revert ''Invalid instance ID'')
      else if \<not> length ip > 0 then Inl (Revert ''Invalid IP address'')
      else
        let vm = (vms s tokenId)\<lparr>instanceId := inst, ipAddress := ip, status := ACTIVE,
                                 provisionedAt := timestamp e\<rparr>;
            s1 = s\<lparr>vms := (vms s)(tokenId := vm),
                   everProvisioned := (everProvisioned s)(tokenId := True)\<rparr>
        in Inr (emit (VMProvisioned tokenId inst ip (timestamp e)) s1))"

subsection \<open>renewVM\<close>

definition renewVM :: "env \<Rightarrow> nat \<Rightarrow> nat \<Rightarrow> state \<Rightarrow> error + state" where
  "renewVM e tokenId months s =
     (if paused s then Inl (Revert ''Pausable: paused'')
      else if \<not> exists_id s tokenId then Inl (Revert ''VM does not exist'')
      else
        and_then (ownerOf s tokenId) (\<lambda>holder.
        if holder \<noteq> sender e then Inl (Revert ''Not VM owner'')
        else if \<not> (months > 0 \<and> months \<le> 12) then Inl (Revert ''Invalid duration'')
        else if \<not> status (vms s tokenId) \<noteq> TERMINATED then Inl (Revert ''VM terminated'')
        else
          let vm = vms s tokenId in
          and_then (checked_add (expiresAt vm) GRACE_PERIOD) (\<lambda>deadline.
          if \<not> timestamp e < deadline then Inl (Revert ''VM expired beyond grace period'')
          else
            and_then (getTierPrice (tier vm)) (\<lambda>monthlyPrice.
            and_then (checked_mul monthlyPrice months) (\<lambda>renewalCost.
            and_then (erc20_transferFrom (token s) (self s) (sender e) (treasury s) renewalCost)
              (\<lambda>tk.
            let oldExpiresAt = expiresAt vm in
            and_then (checked_mul months SECONDS_PER_MONTH) (\<lambda>span.
            and_then
              (if timestamp e > expiresAt vm
               then and_then (checked_add (timestamp e) span) (\<lambda>expires.
                      if status vm = SUSPENDED
                      then Inr (vm\<lparr>expiresAt := expires, status := ACTIVE\<rparr>,
                                [VMReactivated tokenId (timestamp e)])
                      else Inr (vm\<lparr>expiresAt := expires\<rparr>, []))
               else and_then (checked_add (expiresAt vm) span) (\<lambda>expires.
                      Inr (vm\<lparr>expiresAt := expires\<rparr>, [])))
              (\<lambda>(vm1, evs).
            let vm2 = vm1\<lparr>lastRenewal := timestamp e\<rparr>;
                s1 = s\<lparr>token := tk, vms := (vms s)(tokenId := vm2),
                       events := events s @ evs\<rparr>
            in Inr (emit (VMRenewed tokenId oldExpiresAt (expiresAt vm2) renewalCost) s1)))))))))"

subsection \<open>terminateVM\<close>

definition markTerminated :: "nat \<Rightarrow> state \<Rightarrow> state" where
  "markTerminated tokenId s =
     s\<lparr>vms := (vms s)(tokenId := (vms s tokenId)\<lparr>status := TERMINATED\<rparr>)\<rparr>"

definition deleteVM :: "nat \<Rightarrow> state \<Rightarrow> state" where
  "deleteVM tokenId s = s\<lparr>vms := (vms s)(tokenId := zeroVM)\<rparr>"

definition terminateVM :: "env \<Rightarrow> nat \<Rightarrow> state \<Rightarrow> error + state" where
  "terminateVM e tokenId s =
     (if \<not> exists_id s tokenId then Inl (Revert ''VM does not exist'')
      else
        and_then (ownerOf s tokenId) (\<lambda>holder.
        if holder \<noteq> sender e then Inl (Revert ''Not VM owner'')
        else if \<not> status (vms s tokenId) \<noteq> TERMINATED then Inl (Revert ''Already terminated'')
        else
          let s1 = markTerminated tokenId s;
              s2 = emit (VMTerminated tokenId (sender e) (timestamp e)) s1
          in and_then (burn tokenId s2) (\<lambda>s3. Inr (deleteVM tokenId s3))))"

subsection \<open>suspendVM, reactivateVM, updateIPAddress\<close>

definition suspendVM :: "env \<Rightarrow> nat \<Rightarrow> state \<Rightarrow> error + state" where
  "suspendVM e tokenId s =
     (if \<not> exists_id s tokenId then Inl (Revert ''VM does not exist'')
      else
        and_then (ownerOf s tokenId) (\<lambda>holder.
        if \<not> (sender e = holder \<or> sender e = provisioner s) then Inl (Revert ''Not authorized'')
        else if \<not> status (vms s tokenId) = ACTIVE then Inl (Revert ''VM not active'')
        else
          Inr (emit (VMSuspended tokenId (timestamp e))
                 (s\<lparr>vms := (vms s)(tokenId := (vms s tokenId)\<lparr>status := SUSPENDED\<rparr>)\<rparr>))))"

definition reactivateVM :: "env \<Rightarrow> nat \<Rightarrow> state \<Rightarrow> error + state" where
  "reactivateVM e tokenId s =
     (if \<not> exists_id s tokenId then Inl (Revert ''VM does not exist'')
      else
        and_then (ownerOf s tokenId) (\<lambda>holder.
        if holder \<noteq> sender e then Inl (Revert ''Not VM owner'')
        else if \<not> status (vms s tokenId) = SUSPENDED then Inl (Revert ''VM not suspended'')
        else if \<not> timestamp e < expiresAt (vms s tokenId)
          then Inl (Revert ''VM expired, use renewVM'')
        else
          Inr (emit (VMReactivated tokenId (timestamp e))
                 (s\<lparr>vms := (vms s)(tokenId := (vms s tokenId)\<lparr>status := ACTIVE\<rparr>)\<rparr>))))"

definition updateIPAddress :: "env \<Rightarrow> nat \<Rightarrow> string \<Rightarrow> state \<Rightarrow> error + state" where
  "updateIPAddress e tokenId newIP s =
     (if sender e \<noteq> provisioner s then Inl (Revert ''Only provisioner'')
      else if \<not> exists_id s tokenId then Inl (Revert ''VM does not exist'')
      else if \<not> status (vms s tokenId) \<noteq> TERMINATED then Inl (Revert ''VM terminated'')
      else if \<not> length newIP > 0 then Inl (Revert ''Invalid IP'')
      else
        let oldIP = ipAddress (vms s tokenId) in
        Inr (emit (IPAddressUpdated tokenId oldIP newIP)
               (s\<lparr>vms := (vms s)(tokenId := (vms s tokenId)\<lparr>ipAddress := newIP\<rparr>)\<rparr>)))"

subsection \<open>Read operations\<close>



definition isVMExpired :: "env \<Rightarrow> nat \<Rightarrow> state \<Rightarrow> error + bool" where
  "isVMExpired e tokenId s =
     (if \<not> exists_id s tokenId then Inl (Revert ''VM does not exist'')
      else Inr (timestamp e \<ge> expiresAt (vms s tokenId)))"

definition isInGracePeriod :: "env \<Rightarrow> nat \<Rightarrow> state \<Rightarrow> error + bool" where
  "isInGracePeriod e tokenId s =
     (if \<not> exists_id s tokenId then Inl (Revert ''VM does not exist'')
      else if \<not> timestamp e \<ge> expiresAt (vms s tokenId) then Inr False
      else and_then (checked_add (expiresAt (vms s tokenId)) GRACE_PERIOD) (\<lambda>deadline.
             Inr (timestamp e < deadline)))"

text \<open>\<open>Strings.toString\<close>: the decimal rendering of a number.\<close>

fun toString :: "nat \<Rightarrow> string" where
  "toString n =
     (if n < 10 then [''0123456789'' ! n]
      else toString (n div 10) @ [''0123456789'' ! (n mod 10)])"

declare toString.simps [simp del]


subsection \<open>Administration (Ownable, Pausable) and the constructor\<close>

definition onlyOwner :: "env \<Rightarrow> state \<Rightarrow> error + unit" where
  "onlyOwner e s =
     (if admin s \<noteq> sender e then Inl (Revert ''Ownable: caller is not the owner'') else Inr ())"

definition setTreasury :: "env \<Rightarrow> address \<Rightarrow> state \<Rightarrow> error + state" where
  "setTreasury e newTreasury s =
     and_then (onlyOwner e s) (\<lambda>_.
       if \<not> newTreasury \<noteq> 0 then Inl (Revert ''Invalid address'')
       else Inr (emit (TreasuryUpdated (treasury s) newTreasury) (s\<lparr>treasury := newTreasury\<rparr>)))"

definition setProvisioner :: "env \<Rightarrow> address \<Rightarrow> state \<Rightarrow> error + state" where
  "setProvisioner e newProvisioner s =
     and_then (onlyOwner e s) (\<lambda>_.
       if \<not> newProvisioner \<noteq> 0 then Inl (Revert ''Invalid address'')
       else Inr (emit (ProvisionerUpdated (provisioner s) newProvisioner)
                   (s\<lparr>provisioner := newProvisioner\<rparr>)))"

definition pause :: "env \<Rightarrow> state \<Rightarrow> error + state" where
  "pause e s =
     and_then (onlyOwner e s) (\<lambda>_.
       if paused s then Inl (Revert ''Pausable: paused'') else Inr (s\<lparr>paused := True\<rparr>))"

definition unpause :: "env \<Rightarrow> state \<Rightarrow> error + state" where
  "unpause e s =
     and_then (onlyOwner e s) (\<lambda>_.
       if \<not> paused s then Inl (Revert ''Pausable: not paused'') else Inr (s\<lparr>paused := False\<rparr>))"

definition emergencyWithdraw :: "env \<Rightarrow> address \<Rightarrow> nat \<Rightarrow> state \<Rightarrow> error + state" where
  "emergencyWithdraw e tok amount s =
     and_then (onlyOwner e s) (\<lambda>_.
       let recipient = admin s in
       and_then
         (if tok = 0
          then (if hookOk e then Inr s else Inl (Revert ''transfer failed''))
          else if tok = paymentToken s
          then and_then (erc20_transfer (token s) (self s) recipient amount)
                 (\<lambda>tk. Inr (s\<lparr>token := tk\<rparr>))
          else (if hookOk e then Inr s else Inl (Revert ''transfer failed'')))
         (\<lambda>s1. Inr (emit (EmergencyWithdraw tok amount recipient) s1)))"

definition transferOwnership :: "env \<Rightarrow> address \<Rightarrow> state \<Rightarrow> error + state" where
  "transferOwnership e newOwner s =
     and_then (onlyOwner e s) (\<lambda>_.
       if \<not> newOwner \<noteq> 0 then Inl (Revert ''Ownable: new owner is the zero address'')
       else Inr (s\<lparr>admin := newOwner\<rparr>))"

definition renounceOwnership :: "env \<Rightarrow> state \<Rightarrow> error + state" where
  "renounceOwnership e s = and_then (onlyOwner e s) (\<lambda>_. Inr (s\<lparr>admin := 0\<rparr>))"

text \<open>
  The constructor. \<open>this\<close> is the address the contract is deployed at and \<open>tk\<close> the
  ledger of the payment token at that moment; Ownable makes the deployer the owner.
\<close>

definition deploy ::
  "env \<Rightarrow> address \<Rightarrow> erc20 \<Rightarrow> address \<Rightarrow> address \<Rightarrow> address \<Rightarrow> error + state" where
  "deploy e this tk paymentToken' treasury' provisioner' =
     (if \<not> paymentToken' \<noteq> 0 then Inl (Revert ''Invalid payment token'')
      else if \<not> treasury' \<noteq> 0 then Inl (Revert ''Invalid treasury'')
      else if \<not> provisioner' \<noteq> 0 then Inl (Revert ''Invalid provisioner'')
      else Inr \<lparr> self = this, paymentToken = paymentToken', token = tk,
                 treasury = treasury', provisioner = provisioner', admin = sender e,
                 paused = False, tokenIdCounter = 0, owners = (\<lambda>_. 0),
                 tokenApprovals = (\<lambda>_. 0), operatorApprovals = (\<lambda>_ _. False),
                 vms = (\<lambda>_. zeroVM), everProvisioned = (\<lambda>_. False), events = [] \<rparr>)"

subsection \<open>Inherited transfer of ownership of an entitlement (ERC721)\<close>

definition isApprovedOrOwner :: "state \<Rightarrow> address \<Rightarrow> nat \<Rightarrow> error + bool" where
  "isApprovedOrOwner s spender tokenId =
     and_then (ownerOf s tokenId) (\<lambda>holder.
       Inr (spender = holder \<or> operatorApprovals s holder spender
            \<or> tokenApprovals s tokenId = spender))"

definition approve :: "env \<Rightarrow> address \<Rightarrow> nat \<Rightarrow> state \<Rightarrow> error + state" where
  "approve e to tokenId s =
     and_then (ownerOf s tokenId) (\<lambda>holder.
       if \<not> to \<noteq> holder then Inl (Revert ''ERC721: approval to current owner'')
       else if \<not> (sender e = holder \<or> operatorApprovals s holder (sender e))
         then Inl (Revert ''ERC721: approve caller is not token owner or approved for all'')
       else Inr (s\<lparr>tokenApprovals := (tokenApprovals s)(tokenId := to)\<rparr>))"

definition setApprovalForAll :: "env \<Rightarrow> address \<Rightarrow> bool \<Rightarrow> state \<Rightarrow> error + state" where
  "setApprovalForAll e operator approved s =
     (if \<not> sender e \<noteq> operator then Inl (Revert ''ERC721: approve to caller'')
      else Inr (s\<lparr>operatorApprovals := (operatorApprovals s)
                     (sender e := (operatorApprovals s (sender e))(operator := approved))\<rparr>))"

definition transferFrom :: "env \<Rightarrow> address \<Rightarrow> address \<Rightarrow> nat \<Rightarrow> state \<Rightarrow> error + state" where
  "transferFrom e from to tokenId s =
     and_then (isApprovedOrOwner s (sender e) tokenId) (\<lambda>ok.
       if \<not> ok then Inl (Revert ''ERC721: caller is not token owner or approved'')
       else and_then (ownerOf s tokenId) (\<lambda>holder.
         if \<not> holder = from then Inl (Revert ''ERC721: transfer from incorrect owner'')
         else if \<not> to \<noteq> 0 then Inl (Revert ''ERC721: transfer to the zero address'')
         else Inr (s\<lparr>tokenApprovals := (tokenApprovals s)(tokenId := 0),
                     owners := (owners s)(tokenId := to)\<rparr>)))"

definition safeTransferFrom :: "env \<Rightarrow> address \<Rightarrow> address \<Rightarrow> nat \<Rightarrow> state \<Rightarrow> error + state" where
  "safeTransferFrom e from to tokenId s =
     and_then (transferFrom e from to tokenId s) (\<lambda>s1.
       if \<not> hookOk e then Inl (Revert ''ERC721: transfer to non ERC721Receiver implementer'')
       else Inr s1)"

subsection \<open>Transactions and traces\<close>

text \<open>
  Every state-changing entry point of the deployed contract, its own and the inherited
  ones, and the calls other accounts make on the payment token (\<open>TokenApprove\<close>,
  \<open>TokenTransfer\<close>), which change the ledger the contract reads.
\<close>

datatype op =
    PurchaseVM "8 word" nat
  | SetVMProvisioned nat string string
  | RenewVM nat nat
  | TerminateVM nat
  | SuspendVM nat
  | ReactivateVM nat
  | UpdateIPAddress nat string
  | SetTreasury address
  | SetProvisioner address
  | Pause
  | Unpause
  | EmergencyWithdrawOp address nat
  | TransferOwnership address
  | RenounceOwnership
  | Approve address nat
  | SetApprovalForAll address bool
  | TransferFrom address address nat
  | SafeTransferFrom address address nat
  | TokenApprove address nat
  | TokenTransfer address nat

definition erc20_approve :: "erc20 \<Rightarrow> address \<Rightarrow> address \<Rightarrow> nat \<Rightarrow> error + erc20" where
  "erc20_approve tk holder spender amount =
     (if holder = 0 then Inl (Revert ''ERC20: approve from the zero address'')
      else if spender = 0 then Inl (Revert ''ERC20: approve to the zero address'')
      else Inr (tk\<lparr>allowances := (allowances tk)
                     (holder := (allowances tk holder)(spender := amount))\<rparr>))"

fun step :: "env \<Rightarrow> op \<Rightarrow> state \<Rightarrow> error + state" where
  "step e (PurchaseVM tierIx months) s =
     and_then (purchaseVM e tierIx months s) (\<lambda>(tokenId, s'). Inr s')"
| "step e (SetVMProvisioned tokenId inst ip) s = setVMProvisioned e tokenId inst ip s"
| "step e (RenewVM tokenId months) s = renewVM e tokenId months s"
| "step e (TerminateVM tokenId) s = terminateVM e tokenId s"
| "step e (SuspendVM tokenId) s = suspendVM e tokenId s"
| "step e (ReactivateVM tokenId) s = reactivateVM e tokenId s"
| "step e (UpdateIPAddress tokenId newIP) s = updateIPAddress e tokenId newIP s"
| "step e (SetTreasury a) s = setTreasury e a s"
| "step e (SetProvisioner a) s = setProvisioner e a s"
| "step e Pause s = pause e s"
| "step e Unpause s = unpause e s"
| "step e (EmergencyWithdrawOp tok amount) s = emergencyWithdraw e tok amount s"
| "step e (TransferOwnership a) s = transferOwnership e a s"
| "step e RenounceOwnership s = renounceOwnership e s"
| "step e (Approve to tokenId) s = approve e to tokenId s"
| "step e (SetApprovalForAll operator approved) s = setApprovalForAll e operator approved s"
| "step e (TransferFrom from to tokenId) s = transferFrom e from to tokenId s"
| "step e (SafeTransferFrom from to tokenId) s = safeTransferFrom e from to tokenId s"
| "step e (TokenApprove spender amount) s =
     and_then (erc20_approve (token s) (sender e) spender amount) (\<lambda>tk. Inr (s\<lparr>token := tk\<rparr>))"
| "step e (TokenTransfer to amount) s =
     and_then (erc20_transfer (token s) (sender e) to amount) (\<lambda>tk. Inr (s\<lparr>token := tk\<rparr>))"

text \<open>A trace is a list of transactions; one that reverts leaves the state as it was.\<close>

fun run :: "(env \<times> op) list \<Rightarrow> state \<Rightarrow> state" where
  "run [] s = s"
| "run (tx # txs) s = run txs (commit (step (fst tx) (snd tx) s) s)"

section \<open>The reconciler: backend/provisioner.js and the event listener\<close>

text \<open>
  The JavaScript side talks to three things outside the program: the cloud providers, the
  ledger and the console. An \<open>await\<close>ed call either returns or throws, so each external
  call is a \<open>reply\<close>, and a function that can throw after it has already changed the
  world returns the reply together with the world it leaves behind.

  The providers are an oracle \<open>cloud\<close>: what each request answers. The requests the code
  sends are recorded in the \<open>world\<close>: the instances the providers created on its behalf,
  the number of \<open>DescribeInstances\<close> requests and the milliseconds spent in \<open>setTimeout\<close>.
  \<open>updateVMStatus\<close> is a stub in the source that prints the record it is given;
  \<open>status_log\<close> keeps what it was called with, oldest first. Key generation, the startup
  script, the labels put on an instance and what is printed on the console do not influence
  control flow and are left out; so are the parameters of the handler that only feed them
  (\<open>buyer\<close>, \<open>durationMonths\<close>, \<open>expiresAt\<close>, \<open>cost\<close> and the event payload). The id
  is kept as a number; \<open>tokenId.toString()\<close>, where the text matters, is \<open>toString\<close>.
\<close>

datatype 'a reply = Throws string | Returns 'a

record cloud_instance =
  provider_of :: string
  token_of :: nat
  instance_of :: string
  machine_of :: string

record cloud =
  gcp_createVM :: "cloud_instance list \<Rightarrow> string \<Rightarrow> unit reply"
  gcp_operation :: "string \<Rightarrow> unit reply"
  gcp_getMetadata :: "string \<Rightarrow> string option reply"
  aws_runInstances :: "cloud_instance list \<Rightarrow> nat \<Rightarrow> string reply"
  aws_describeInstances :: "string \<Rightarrow> nat \<Rightarrow> string option reply"

datatype vm_status =
    StatusRunning string "string option" string
  | StatusFailed string
  | StatusError string

fun status_name :: "vm_status \<Rightarrow> string" where
  "status_name (StatusRunning inst ip prov) = ''running''"
| "status_name (StatusFailed msg) = ''failed''"
| "status_name (StatusError msg) = ''error''"

record world =
  ledger :: state
  instances :: "cloud_instance list"
  describes :: nat
  slept_ms :: nat
  status_log :: "(nat \<times> vm_status) list"

record config =
  PREFERRED_PROVIDER :: "string option"

record machine =
  machineType :: string
  diskSizeGb :: nat

definition TIER_NAMES :: "string list" where
  "TIER_NAMES = [''MICRO'', ''SMALL'', ''MEDIUM'', ''LARGE'', ''XLARGE'']"

text \<open>\<open>TIER_NAMES[tier]\<close> reads \<open>undefined\<close> past the end of the array.\<close>

definition tier_name :: "nat \<Rightarrow> string option" where
  "tier_name t = (if t < length TIER_NAMES then Some (TIER_NAMES ! t) else None)"

text \<open>\<open>VM_CONFIGS[tier]\<close>: the pair is the \<open>gcp\<close> and the \<open>aws\<close> entry.\<close>

definition VM_CONFIGS :: "string \<Rightarrow> (machine \<times> machine) option" where
  "VM_CONFIGS name =
     (if name = ''MICRO'' then Some (\<lparr>machineType = ''e2-micro'', diskSizeGb = 20\<rparr>,
                                      \<lparr>machineType = ''t3.micro'', diskSizeGb = 20\<rparr>)
      else if name = ''SMALL'' then Some (\<lparr>machineType = ''e2-small'', diskSizeGb = 40\<rparr>,
                                          \<lparr>machineType = ''t3.small'', diskSizeGb = 40\<rparr>)
      else if name = ''MEDIUM'' then Some (\<lparr>machineType = ''e2-medium'', diskSizeGb = 80\<rparr>,
                                           \<lparr>machineType = ''t3.medium'', diskSizeGb = 80\<rparr>)
      else if name = ''LARGE'' then Some (\<lparr>machineType = ''e2-standard-4'', diskSizeGb = 160\<rparr>,
                                          \<lparr>machineType = ''t3.large'', diskSizeGb = 160\<rparr>)
      else if name = ''XLARGE'' then Some (\<lparr>machineType = ''e2-standard-8'', diskSizeGb = 320\<rparr>,
                                           \<lparr>machineType = ''t3.xlarge'', diskSizeGb = 320\<rparr>)
      else None)"

text \<open>The result object of a provisioning function: \<open>success\<close> true or false.\<close>

datatype provision_result =
    Success string "string option" string
  | Failure string

text \<open>JavaScript's \<open>!publicIP\<close>: true for \<open>undefined\<close> and for the empty string.\<close>

definition falsy :: "string option \<Rightarrow> bool" where
  "falsy ip = (ip = None \<or> ip = Some [])"

subsection \<open>provisionGCP\<close>

definition provisionGCP ::
  "cloud \<Rightarrow> nat \<Rightarrow> string option \<Rightarrow> world \<Rightarrow> provision_result reply \<times> world" where
  "provisionGCP c tokenId tierName w =
     (case (case tierName of None \<Rightarrow> None | Some name \<Rightarrow> VM_CONFIGS name) of
        None \<Rightarrow> (Throws ''TypeError: Cannot read properties of undefined'', w)
      | Some cfg \<Rightarrow>
          let vmName = ''clawcloud-'' @ toString tokenId in
          (case gcp_createVM c (instances w) vmName of
             Throws msg \<Rightarrow> (Throws msg, w)
           | Returns _ \<Rightarrow>
               let w1 = w\<lparr>instances := instances w @
                          [\<lparr>provider_of = ''gcp'', token_of = tokenId, instance_of = vmName,
                            machine_of = machineType (fst cfg)\<rparr>]\<rparr>
               in (case gcp_operation c vmName of
                     Throws msg \<Rightarrow> (Throws msg, w1)
                   | Returns _ \<Rightarrow>
                       (case gcp_getMetadata c vmName of
                          Throws msg \<Rightarrow> (Throws msg, w1)
                        | Returns externalIP \<Rightarrow>
                            (Returns (Success vmName externalIP ''gcp''), w1)))))"

subsection \<open>provisionAWS\<close>

text \<open>
  The polling loop \<open>while (!publicIP && attempts < 30)\<close>: every round sleeps 2000 ms,
  sends one \<open>DescribeInstances\<close> request and counts the attempt. A request that throws
  leaves the loop with the exception.
\<close>

function poll ::
  "cloud \<Rightarrow> string \<Rightarrow> string option \<Rightarrow> nat \<Rightarrow> world \<Rightarrow> string option reply \<times> world" where
  "poll c inst publicIP attempts w =
     (if falsy publicIP \<and> attempts < 30 then
        (case aws_describeInstances c inst attempts of
           Throws msg \<Rightarrow>
             (Throws msg, w\<lparr>slept_ms := slept_ms w + 2000, describes := describes w + 1\<rparr>)
         | Returns ip \<Rightarrow>
             poll c inst ip (attempts + 1)
               (w\<lparr>slept_ms := slept_ms w + 2000, describes := describes w + 1\<rparr>))
      else (Returns publicIP, w))"
  by pat_completeness auto
termination
  by (relation "measure (\<lambda>(c, inst, publicIP, attempts, w). 30 - attempts)") auto

declare poll.simps [simp del]

definition provisionAWS ::
  "cloud \<Rightarrow> nat \<Rightarrow> string option \<Rightarrow> world \<Rightarrow> provision_result reply \<times> world" where
  "provisionAWS c tokenId tierName w =
     (case (case tierName of None \<Rightarrow> None | Some name \<Rightarrow> VM_CONFIGS name) of
        None \<Rightarrow> (Throws ''TypeError: Cannot read properties of undefined'', w)
      | Some cfg \<Rightarrow>
          (case aws_runInstances c (instances w) tokenId of
             Throws msg \<Rightarrow> (Throws msg, w)
           | Returns inst \<Rightarrow>
               let w1 = w\<lparr>instances := instances w @
                          [\<lparr>provider_of = ''aws'', token_of = tokenId, instance_of = inst,
                            machine_of = machineType (snd cfg)\<rparr>]\<rparr>
               in (case poll c inst None 0 w1 of
                     (Throws msg, w2) \<Rightarrow> (Throws msg, w2)
                   | (Returns publicIP, w2) \<Rightarrow>
                       if falsy publicIP
                       then (Throws ''Failed to get public IP for instance'', w2)
                       else (Returns (Success inst publicIP ''aws''), w2))))"

subsection \<open>provisionVM and updateVMStatus\<close>

text \<open>
  \<open>process.env.PREFERRED_PROVIDER || 'gcp'\<close>: an unset or empty variable means \<open>gcp\<close>.
  The \<open>try\<close>/\<open>catch\<close> turns every exception into a result with \<open>success: false\<close>.
\<close>

definition provisionVM ::
  "config \<Rightarrow> cloud \<Rightarrow> nat \<Rightarrow> string option \<Rightarrow> world \<Rightarrow> provision_result \<times> world" where
  "provisionVM cfg c tokenId tierName w =
     (let provider = (case PREFERRED_PROVIDER cfg of
                        None \<Rightarrow> ''gcp''
                      | Some p \<Rightarrow> if p = [] then ''gcp'' else p);
          attempt = (if provider = ''gcp'' then provisionGCP c tokenId tierName w
                     else if provider = ''aws'' then provisionAWS c tokenId tierName w
                     else (Throws (''Unsupported provider: '' @ provider), w))
      in case attempt of
           (Returns result, w1) \<Rightarrow> (result, w1)
         | (Throws msg, w1) \<Rightarrow> (Failure msg, w1))"

definition updateVMStatus :: "nat \<Rightarrow> vm_status \<Rightarrow> world \<Rightarrow> world" where
  "updateVMStatus tokenId st w = w\<lparr>status_log := status_log w @ [(tokenId, st)]\<rparr>"

subsection \<open>handleVMPurchased\<close>

text \<open>
  The write-back \<open>contract.setVMProvisioned(...)\<close> followed by \<open>tx.wait()\<close>: the
  transaction is sent from the backend wallet (\<open>sender e\<close>) and mined at \<open>timestamp e\<close>;
  a revert surfaces as an exception carrying the reason, and an \<open>undefined\<close> address
  is refused by the encoder before anything is sent.
\<close>

fun error_message :: "error \<Rightarrow> string" where
  "error_message (Revert msg) = msg"
| "error_message (Panic code) = ''Panic''"

definition writeBack ::
  "env \<Rightarrow> nat \<Rightarrow> string \<Rightarrow> string option \<Rightarrow> world \<Rightarrow> unit reply \<times> world" where
  "writeBack e tokenId inst ip w =
     (case ip of
        None \<Rightarrow> (Throws ''invalid string value'', w)
      | Some addr \<Rightarrow>
          (case setVMProvisioned e tokenId inst addr (ledger w) of
             Inl err \<Rightarrow> (Throws (error_message err), w)
           | Inr s' \<Rightarrow> (Returns (), w\<lparr>ledger := s'\<rparr>)))"

text \<open>The body of the \<open>try\<close> block, then the handler with its \<open>catch\<close>.\<close>

definition handleVMPurchased_try ::
  "config \<Rightarrow> cloud \<Rightarrow> env \<Rightarrow> nat \<Rightarrow> nat \<Rightarrow> world \<Rightarrow> unit reply \<times> world" where
  "handleVMPurchased_try cfg c e tokenId tierIx w =
     (case provisionVM cfg c tokenId (tier_name tierIx) w of
        (Success inst ip prov, w1) \<Rightarrow>
          (case writeBack e tokenId inst ip w1 of
             (Throws msg, w2) \<Rightarrow> (Throws msg, w2)
           | (Returns _, w2) \<Rightarrow>
               (Returns (), updateVMStatus tokenId (StatusRunning inst ip prov) w2))
      | (Failure msg, w1) \<Rightarrow> (Returns (), updateVMStatus tokenId (StatusFailed msg) w1))"

definition handleVMPurchased ::
  "config \<Rightarrow> cloud \<Rightarrow> env \<Rightarrow> nat \<Rightarrow> nat \<Rightarrow> world \<Rightarrow> world" where
  "handleVMPurchased cfg c e tokenId tierIx w =
     (case handleVMPurchased_try cfg c e tokenId tierIx w of
        (Returns _, w1) \<Rightarrow> w1
      | (Throws msg, w1) \<Rightarrow> updateVMStatus tokenId (StatusError msg) w1)"

section \<open>A concrete deployment\<close>

text \<open>
  The scenarios of the specification, as values: the contract deployed by account 1 at
  address 100 with treasury 2 and provisioning identity 3; account 7 holds 1000 units of
  the payment token (6 decimals), approves the contract, buys tier 2 for 3 months at time
  2000, and the provisioning identity writes the instance back at time 3000.
\<close>

definition call :: "address \<Rightarrow> nat \<Rightarrow> env" where
  "call who t = \<lparr> sender = who, timestamp = t, hookOk = True \<rparr>"

definition usdc :: erc20 where
  "usdc = \<lparr> balances = (\<lambda>a. if a = 7 then 1000000000 else 0), allowances = (\<lambda>_ _. 0) \<rparr>"

definition genesis :: state where
  "genesis = \<lparr> self = 100, paymentToken = 200, token = usdc,
               treasury = 2, provisioner = 3, admin = 1,
               paused = False, tokenIdCounter = 0, owners = (\<lambda>_. 0),
               tokenApprovals = (\<lambda>_. 0), operatorApprovals = (\<lambda>_ _. False),
               vms = (\<lambda>_. zeroVM), everProvisioned = (\<lambda>_. False), events = [] \<rparr>"

definition funded :: state where
  "funded = run [(call 7 1000, TokenApprove 100 1000000000)] genesis"

definition purchased :: state where
  "purchased = run [(call 7 2000, PurchaseVM 2 3)] funded"

definition provisioned :: state where
  "provisioned = run [(call 3 3000, SetVMProvisioned 0 ''i-0abc'' ''203.0.113.9'')] purchased"

definition suspended :: state where
  "suspended = run [(call 7 4000, SuspendVM 0)] provisioned"

text \<open>
  Two provider oracles on the AWS path: one that hands out a fresh instance id per request
  and reports an address at the first poll, and one whose instances never get an address.
\<close>

definition aws_config :: config where
  "aws_config = \<lparr> PREFERRED_PROVIDER = Some ''aws'' \<rparr>"

definition prompt_cloud :: cloud where
  "prompt_cloud =
     \<lparr> gcp_createVM = (\<lambda>_ _. Throws ''unavailable''),
       gcp_operation = (\<lambda>_. Throws ''unavailable''),
       gcp_getMetadata = (\<lambda>_. Throws ''unavailable''),
       aws_runInstances = (\<lambda>existing _. Returns (''i-'' @ toString (length existing))),
       aws_describeInstances = (\<lambda>_ _. Returns (Some ''203.0.113.9'')) \<rparr>"

definition silent_cloud :: cloud where
  "silent_cloud = prompt_cloud\<lparr> aws_describeInstances := (\<lambda>_ _. Returns None) \<rparr>"

definition world0 :: world where
  "world0 = \<lparr> ledger = purchased, instances = [], describes = 0, slept_ms = 0,
              status_log = [] \<rparr>"

text \<open>
  The same \<open>VMPurchased\<close> event (id 0, tier index 2) delivered to the handler twice, the
  write-backs mined at times 3000 and 3100.
\<close>

definition redelivered :: world where
  "redelivered =
     handleVMPurchased aws_config prompt_cloud (call 3 3100) 0 2
       (handleVMPurchased aws_config prompt_cloud (call 3 3000) 0 2 world0)"

section \<open>Properties of the ledger\<close>

subsection \<open>Auxiliary facts\<close>

lemma and_then_Inr [simp]: "and_then (Inr x) k = k x"
  by (simp add: and_then_def)

lemma and_then_Inl [simp]: "and_then (Inl err) k = Inl err"
  by (simp add: and_then_def)

lemma and_then_eq_Inr: "and_then r k = Inr y \<longleftrightarrow> (\<exists>x. r = Inr x \<and> k x = Inr y)"
  by (cases r) simp_all

lemma checked_add_eq_Inr: "checked_add a b = Inr c \<longleftrightarrow> a + b \<le> MAX_UINT256 \<and> c = a + b"
  by (auto simp: checked_add_def)

lemma checked_mul_eq_Inr: "checked_mul a b = Inr c \<longleftrightarrow> a * b \<le> MAX_UINT256 \<and> c = a * b"
  by (auto simp: checked_mul_def)

lemma ownerOf_eq_Inr: "ownerOf s tokenId = Inr a \<longleftrightarrow> owners s tokenId \<noteq> 0 \<and> a = owners s tokenId"
  by (auto simp: ownerOf_def)

lemma safeMint_eq_Inr:
  "safeMint e to tokenId s = Inr s' \<longleftrightarrow>
     to \<noteq> 0 \<and> owners s tokenId = 0 \<and> hookOk e \<and> s' = s\<lparr>owners := (owners s)(tokenId := to)\<rparr>"
  by (auto simp: safeMint_def exists_id_def)

lemmas price_defs = getTierPrice_def TIER_MICRO_PRICE_def TIER_SMALL_PRICE_def
  TIER_MEDIUM_PRICE_def TIER_LARGE_PRICE_def TIER_XLARGE_PRICE_def


lemma getTierPrice_le: "getTierPrice t = Inr p \<Longrightarrow> p \<le> 100000000"
  by (cases t) (auto simp: price_defs)


lemma price_no_overflow:
  assumes "getTierPrice t = Inr p" and "months \<le> 12"
  shows "checked_mul p months = Inr (p * months)"
proof -
  have "p * months \<le> 100000000 * 12"
    using getTierPrice_le [OF assms(1)] assms(2) by (rule mult_le_mono)
  also have "\<dots> \<le> MAX_UINT256" by (simp add: MAX_UINT256_def)
  finally show ?thesis by (simp add: checked_mul_def)
qed



lemma purchaseVM_Inr:
  assumes "purchaseVM e tierIx months s = Inr (tokenId, s')"
  shows "\<exists>t p tk. Tier_of tierIx = Inr t \<and> getTierPrice t = Inr p \<and>
           erc20_transferFrom (token s) (self s) (sender e) (treasury s) (p * months) = Inr tk \<and>
           tokenId = tokenIdCounter s \<and> owners s tokenId = 0 \<and>
           s' = s\<lparr>token := tk, tokenIdCounter := tokenIdCounter s + 1,
                  owners := (owners s)(tokenId := sender e),
                  vms := (vms s)(tokenId := \<lparr> tier = t, purchasedAt = timestamp e,
                     expiresAt = timestamp e + months * SECONDS_PER_MONTH,
                     durationMonths = months, instanceId = [], ipAddress = [],
                     status = PROVISIONING, provisionedAt = 0,
                     lastRenewal = timestamp e \<rparr>),
                  events := events s @ [VMPurchased tokenId (sender e) t months
                     (timestamp e + months * SECONDS_PER_MONTH) (p * months)]\<rparr>"
  using assms
  by (auto simp: purchaseVM_def and_then_eq_Inr checked_add_eq_Inr checked_mul_eq_Inr
      safeMint_eq_Inr emit_def Let_def split: if_splits)

lemmas op_defs = setVMProvisioned_def terminateVM_def suspendVM_def
  reactivateVM_def updateIPAddress_def setTreasury_def setProvisioner_def pause_def
  unpause_def emergencyWithdraw_def transferOwnership_def renounceOwnership_def approve_def
  setApprovalForAll_def transferFrom_def safeTransferFrom_def isApprovedOrOwner_def
  onlyOwner_def burn_def markTerminated_def deleteVM_def

lemmas demo_defs = call_def usdc_def genesis_def funded_def purchased_def provisioned_def
  suspended_def commit_def erc20_approve_def erc20_transferFrom_def erc20_transfer_def
  MAX_UINT256_def purchaseVM_def renewVM_def Tier_of_def price_defs checked_add_def
  checked_mul_def safeMint_def exists_id_def ownerOf_def SECONDS_PER_MONTH_def
  GRACE_PERIOD_def emit_def Let_def op_defs


lemma renewVM_Inr:
  assumes "renewVM e tokenId months s = Inr s'"
  shows "\<not> paused s" and "owners s tokenId = sender e" and "owners s tokenId \<noteq> 0"
    and "0 < months" and "months \<le> 12"
    and "status (vms s tokenId) \<noteq> TERMINATED"
    and "timestamp e < expiresAt (vms s tokenId) + GRACE_PERIOD"
    and "vms s' tokenId = (vms s tokenId)
           \<lparr>expiresAt := (if timestamp e > expiresAt (vms s tokenId)
                          then timestamp e + months * SECONDS_PER_MONTH
                          else expiresAt (vms s tokenId) + months * SECONDS_PER_MONTH),
            status := (if timestamp e > expiresAt (vms s tokenId)
                          \<and> status (vms s tokenId) = SUSPENDED
                       then ACTIVE else status (vms s tokenId)),
            lastRenewal := timestamp e\<rparr>"
    and "\<exists>p. getTierPrice (tier (vms s tokenId)) = Inr p \<and>
           erc20_transferFrom (token s) (self s) (sender e) (treasury s) (p * months)
             = Inr (token s')"
    and "owners s' = owners s" and "everProvisioned s' = everProvisioned s"
    and "tokenIdCounter s' = tokenIdCounter s"
    and "i \<noteq> tokenId \<Longrightarrow> vms s' i = vms s i"
    and "\<exists>p. getTierPrice (tier (vms s tokenId)) = Inr p \<and>
           events s' = events s @
             (if timestamp e > expiresAt (vms s tokenId) \<and> status (vms s tokenId) = SUSPENDED
              then [VMReactivated tokenId (timestamp e)] else []) @
             [VMRenewed tokenId (expiresAt (vms s tokenId)) (expiresAt (vms s' tokenId))
                (p * months)]"
  using assms
  by (auto simp: renewVM_def and_then_eq_Inr checked_add_eq_Inr checked_mul_eq_Inr
      ownerOf_eq_Inr exists_id_def emit_def Let_def split: if_splits)

lemma commit_Inl: "isl r \<Longrightarrow> commit r s = s"
  by (cases r) (simp_all add: commit_def)

lemma setVMProvisioned_Inr:
  assumes "setVMProvisioned e tokenId inst ip s = Inr s'"
  shows "sender e = provisioner s" and "owners s tokenId \<noteq> 0"
    and "status (vms s tokenId) = PROVISIONING"
    and "timestamp e < expiresAt (vms s tokenId)"
    and "inst \<noteq> []" and "ip \<noteq> []"
    and "s' = s\<lparr>vms := (vms s)(tokenId := (vms s tokenId)
                     \<lparr>instanceId := inst, ipAddress := ip, status := ACTIVE,
                      provisionedAt := timestamp e\<rparr>),
                everProvisioned := (everProvisioned s)(tokenId := True),
                events := events s @ [VMProvisioned tokenId inst ip (timestamp e)]\<rparr>"
  using assms
  by (auto simp: setVMProvisioned_def exists_id_def emit_def Let_def split: if_splits)

subsection \<open>Purchase\<close>

text \<open>
  When a purchase goes through: the contract is not paused, the inputs are in range, the
  buyer has approved and holds the cost, its receiver hook accepts, and neither the
  counter nor the expiry overflows. The id handed out is the counter.
\<close>

lemma purchaseVM_succeeds:
  assumes "\<not> paused s" and "unat tierIx \<le> 4" and "1 \<le> months" and "months \<le> 12"
    and "Tier_of tierIx = Inr t" and "getTierPrice t = Inr p"
    and "sender e \<noteq> 0" and "treasury s \<noteq> 0" and "hookOk e"
    and "p * months \<le> allowances (token s) (sender e) (self s)"
    and "p * months \<le> balances (token s) (sender e)"
    and "tokenIdCounter s < MAX_UINT256" and "owners s (tokenIdCounter s) = 0"
    and "timestamp e + months * SECONDS_PER_MONTH \<le> MAX_UINT256"
  shows "\<exists>s'. purchaseVM e tierIx months s = Inr (tokenIdCounter s, s')"
proof -
  have "p * months \<le> MAX_UINT256"
    using price_no_overflow [OF assms(6,4)] by (simp add: checked_mul_eq_Inr)
  moreover have "months * SECONDS_PER_MONTH \<le> MAX_UINT256"
    using assms(14) by simp
  ultimately show ?thesis
    using assms
    by (simp add: purchaseVM_def checked_mul_def checked_add_def erc20_transferFrom_def
        erc20_transfer_def safeMint_def exists_id_def Let_def)
qed



text \<open>
  C5. A purchase with a tier index above 4 or a duration outside [1,12] is refused by the
  two \<open>require\<close>s that open the function, before anything is written (only the pause
  gate comes earlier); a purchase whose payment capture fails is refused as well. A refused
  purchase is a reverted transaction: the state afterwards is the state before, so no
  entitlement record exists that did not exist and nothing else has changed.
\<close>

theorem purchase_rejects_bad_input_and_failed_payment:
  "(4 < unat tierIx \<longrightarrow>
      purchaseVM e tierIx months s =
        Inl (Revert (if paused s then ''Pausable: paused'' else ''Invalid tier'')))
   \<and> (unat tierIx \<le> 4 \<and> (months < 1 \<or> 12 < months) \<longrightarrow>
      purchaseVM e tierIx months s =
        Inl (Revert (if paused s then ''Pausable: paused'' else ''Duration must be 1-12 months'')))
   \<and> (\<forall>t p err. Tier_of tierIx = Inr t \<and> getTierPrice t = Inr p \<and>
         erc20_transferFrom (token s) (self s) (sender e) (treasury s) (p * months) = Inl err \<longrightarrow>
         isl (purchaseVM e tierIx months s))
   \<and> (isl (purchaseVM e tierIx months s) \<longrightarrow>
         commit (step e (PurchaseVM tierIx months) s) s = s)"
proof -
  have pay: "isl (purchaseVM e tierIx months s)"
    if "Tier_of tierIx = Inr t" and "getTierPrice t = Inr p"
      and "erc20_transferFrom (token s) (self s) (sender e) (treasury s) (p * months) = Inl err"
    for t p err
  proof (cases "purchaseVM e tierIx months s")
    case (Inr r)
    then have "purchaseVM e tierIx months s = Inr (fst r, snd r)" by simp
    from purchaseVM_Inr [OF this] that show ?thesis by auto
  qed simp
  have keep: "commit (step e (PurchaseVM tierIx months) s) s = s"
    if "isl (purchaseVM e tierIx months s)"
    using that by (cases "purchaseVM e tierIx months s") (simp_all add: commit_def)
  show ?thesis
    using pay keep by (auto simp: purchaseVM_def)
qed

theorem purchase_rejects_bad_input_and_failed_payment_witness:
  "purchaseVM (call 7 2000) 5 3 funded = Inl (Revert ''Invalid tier'')
   \<and> purchaseVM (call 7 2000) 2 13 funded = Inl (Revert ''Duration must be 1-12 months'')
   \<and> purchaseVM (call 7 2000) 2 0 funded = Inl (Revert ''Duration must be 1-12 months'')
   \<and> erc20_transferFrom (token genesis) 100 7 2 75000000 = Inl (Revert ''ERC20: insufficient allowance'')
   \<and> isl (purchaseVM (call 7 2000) 2 3 genesis)
   \<and> commit (step (call 7 2000) (PurchaseVM 2 3) genesis) genesis = genesis"
proof -
  have a: "(4::nat) < unat (5 :: 8 word)" and b: "unat (2 :: 8 word) \<le> 4" by simp_all
  have c: "\<not> paused funded" by (simp add: demo_defs)
  have d: "Tier_of 2 = Inr MEDIUM" by (simp add: Tier_of_def)
  have d': "getTierPrice MEDIUM = Inr 25000000" by (simp add: price_defs)
  have f: "erc20_transferFrom (token genesis) (self genesis) (sender (call 7 2000))
             (treasury genesis) (25000000 * 3) = Inl (Revert ''ERC20: insufficient allowance'')"
    by (simp add: demo_defs)
  then have f': "erc20_transferFrom (token genesis) 100 7 2 75000000 = Inl (Revert ''ERC20: insufficient allowance'')"
    by (simp add: demo_defs)
  note t1 = purchase_rejects_bad_input_and_failed_payment [of 5 "call 7 2000" 3 funded]
  note t2 = purchase_rejects_bad_input_and_failed_payment [of 2 "call 7 2000" 13 funded]
  note t3 = purchase_rejects_bad_input_and_failed_payment [of 2 "call 7 2000" 0 funded]
  note t4 = purchase_rejects_bad_input_and_failed_payment [of 2 "call 7 2000" 3 genesis]
  from t4 d d' f have g: "isl (purchaseVM (call 7 2000) 2 3 genesis)" by blast
  with t4 have h: "commit (step (call 7 2000) (PurchaseVM 2 3) genesis) genesis = genesis" by blast
  from t1 a c have "purchaseVM (call 7 2000) 5 3 funded = Inl (Revert ''Invalid tier'')" by simp
  moreover from t2 b c have "purchaseVM (call 7 2000) 2 13 funded = Inl (Revert ''Duration must be 1-12 months'')" by simp
  moreover from t3 b c have "purchaseVM (call 7 2000) 2 0 funded = Inl (Revert ''Duration must be 1-12 months'')" by simp
  ultimately show ?thesis using f' g h by blast
qed

subsection \<open>Renewal\<close>

text \<open>When a renewal goes through.\<close>

lemma renewVM_succeeds:
  assumes "\<not> paused s" and "owners s tokenId = sender e" and "sender e \<noteq> 0"
    and "1 \<le> months" and "months \<le> 12"
    and "status (vms s tokenId) \<noteq> TERMINATED"
    and "timestamp e < expiresAt (vms s tokenId) + GRACE_PERIOD"
    and "getTierPrice (tier (vms s tokenId)) = Inr p"
    and "treasury s \<noteq> 0"
    and "p * months \<le> allowances (token s) (sender e) (self s)"
    and "p * months \<le> balances (token s) (sender e)"
    and "expiresAt (vms s tokenId) + GRACE_PERIOD + months * SECONDS_PER_MONTH \<le> MAX_UINT256"
  shows "\<exists>s'. renewVM e tokenId months s = Inr s'"
proof -
  have "p * months \<le> MAX_UINT256"
    using price_no_overflow [OF assms(8,5)] by (simp add: checked_mul_eq_Inr)
  moreover have "months * SECONDS_PER_MONTH \<le> MAX_UINT256"
    and "timestamp e + months * SECONDS_PER_MONTH \<le> MAX_UINT256"
    and "expiresAt (vms s tokenId) + months * SECONDS_PER_MONTH \<le> MAX_UINT256"
    and "expiresAt (vms s tokenId) + GRACE_PERIOD \<le> MAX_UINT256"
    using assms(7,12) by simp_all
  ultimately show ?thesis
    using assms(1-11)
    by (simp add: renewVM_def checked_mul_def checked_add_def erc20_transferFrom_def
        erc20_transfer_def exists_id_def ownerOf_def Let_def)
qed

text \<open>
  C6. A renewal that goes through (the payment included) at a time strictly before
  \<open>expiresAt\<close> is a renewal of an entitlement that is not Terminated; it sets the new
  \<open>expiresAt\<close> to the old one plus \<open>additionalMonths * 2629800\<close>, leaves the status as
  it was and reports old and new expiry and the cost in \<open>VMRenewed\<close>.
\<close>

theorem renew_before_expiry_extends_from_old_expiry:
  assumes "renewVM e tokenId months s = Inr s'"
    and "timestamp e < expiresAt (vms s tokenId)"
  shows "status (vms s tokenId) \<noteq> TERMINATED \<and>
         expiresAt (vms s' tokenId) = expiresAt (vms s tokenId) + months * 2629800 \<and>
         status (vms s' tokenId) = status (vms s tokenId) \<and>
         lastRenewal (vms s' tokenId) = timestamp e \<and>
         (\<exists>p. getTierPrice (tier (vms s tokenId)) = Inr p \<and>
            last (events s') = VMRenewed tokenId (expiresAt (vms s tokenId))
               (expiresAt (vms s tokenId) + months * 2629800) (p * months))"
  using renewVM_Inr(6,8,14) [OF assms(1)] assms(2)
  by (auto simp: SECONDS_PER_MONTH_def)

theorem renew_before_expiry_extends_from_old_expiry_witness:
  "\<exists>s'. renewVM (call 7 5000) 0 2 provisioned = Inr s' \<and>
        expiresAt (vms provisioned 0) = 7891400 \<and>
        expiresAt (vms s' 0) = 13151000 \<and>
        status (vms s' 0) = ACTIVE \<and>
        last (events s') = VMRenewed 0 7891400 13151000 50000000"
proof -
  obtain s' where ok: "renewVM (call 7 5000) 0 2 provisioned = Inr s'"
    by (simp add: demo_defs)
  have pre: "expiresAt (vms provisioned 0) = 7891400 \<and> status (vms provisioned 0) = ACTIVE
             \<and> tier (vms provisioned 0) = MEDIUM"
    by (simp add: demo_defs)
  then have "timestamp (call 7 5000) < expiresAt (vms provisioned 0)"
    by (simp add: call_def)
  from renew_before_expiry_extends_from_old_expiry [OF ok this] pre ok
  show ?thesis by (auto simp: price_defs)
qed

text \<open>
  C7. With \<open>GRACE_PERIOD\<close> = 7 days, a renewal attempted at any time at or after
  \<open>expiresAt + GRACE_PERIOD\<close> is rejected, whatever the caller, the duration and the
  state; the transaction reverts, so no payment is taken and the stored state is unchanged.
  When every earlier check passes the rejection is the grace-period check itself.
\<close>

theorem renew_after_grace_rejected:
  assumes "expiresAt (vms s tokenId) + GRACE_PERIOD \<le> timestamp e"
  shows "isl (renewVM e tokenId months s) \<and>
         commit (step e (RenewVM tokenId months) s) s = s \<and>
         GRACE_PERIOD = 7 * 24 * 60 * 60 \<and>
         (\<not> paused s \<and> owners s tokenId = sender e \<and> sender e \<noteq> 0 \<and>
          0 < months \<and> months \<le> 12 \<and> status (vms s tokenId) \<noteq> TERMINATED \<and>
          expiresAt (vms s tokenId) + GRACE_PERIOD \<le> MAX_UINT256 \<longrightarrow>
            renewVM e tokenId months s = Inl (Revert ''VM expired beyond grace period''))"
proof -
  have rej: "isl (renewVM e tokenId months s)"
  proof (cases "renewVM e tokenId months s")
    case (Inr s')
    from renewVM_Inr(7) [OF this] assms show ?thesis by simp
  qed simp
  then have "commit (step e (RenewVM tokenId months) s) s = s"
    by (simp add: commit_Inl)
  moreover have "GRACE_PERIOD = 7 * 24 * 60 * 60"
    by (simp add: GRACE_PERIOD_def)
  moreover have "renewVM e tokenId months s = Inl (Revert ''VM expired beyond grace period'')"
    if "\<not> paused s" "owners s tokenId = sender e" "sender e \<noteq> 0"
      "0 < months" "months \<le> 12" "status (vms s tokenId) \<noteq> TERMINATED"
      "expiresAt (vms s tokenId) + GRACE_PERIOD \<le> MAX_UINT256"
    using that assms
    by (simp add: renewVM_def exists_id_def ownerOf_def checked_add_def Let_def)
  ultimately show ?thesis using rej by blast
qed

theorem renew_after_grace_rejected_witness:
  "expiresAt (vms provisioned 0) = 7891400 \<and>
   renewVM (call 7 (7891400 + 8 * 86400)) 0 1 provisioned =
     Inl (Revert ''VM expired beyond grace period'') \<and>
   commit (step (call 7 (7891400 + 8 * 86400)) (RenewVM 0 1) provisioned) provisioned = provisioned"
proof -
  have pre: "expiresAt (vms provisioned 0) = 7891400 \<and> \<not> paused provisioned \<and>
             owners provisioned 0 = 7 \<and> status (vms provisioned 0) = ACTIVE"
    by (simp add: demo_defs)
  then have "expiresAt (vms provisioned 0) + GRACE_PERIOD \<le> timestamp (call 7 (7891400 + 8 * 86400))"
    by (simp add: call_def GRACE_PERIOD_def)
  from renew_after_grace_rejected [OF this, of 1] pre
  show ?thesis by (simp add: call_def GRACE_PERIOD_def MAX_UINT256_def commit_def)
qed


text \<open>
  What \<open>renewVM\<close> does once \<open>expiresAt\<close> has passed: strictly after it the new expiry
  counts from now and a Suspended entitlement becomes Active; exactly at it the \<open>else\<close>
  branch runs, which gives the same expiry and leaves the status alone.
\<close>

lemma renew_past_expiry_within_grace:
  assumes "renewVM e tokenId months s = Inr s'"
    and "expiresAt (vms s tokenId) < timestamp e"
  shows "status (vms s tokenId) \<noteq> TERMINATED \<and>
         timestamp e < expiresAt (vms s tokenId) + GRACE_PERIOD \<and>
         expiresAt (vms s' tokenId) = timestamp e + months * 2629800 \<and>
         (status (vms s tokenId) = SUSPENDED \<longrightarrow> status (vms s' tokenId) = ACTIVE)"
  using renewVM_Inr(6,7,8) [OF assms(1)] assms(2)
  by (simp add: SECONDS_PER_MONTH_def)

lemma renew_at_expiry:
  assumes "renewVM e tokenId months s = Inr s'"
    and "expiresAt (vms s tokenId) = timestamp e"
  shows "expiresAt (vms s' tokenId) = timestamp e + months * 2629800 \<and>
         status (vms s' tokenId) = status (vms s tokenId)"
  using renewVM_Inr(8) [OF assms(1)] assms(2)
  by (simp add: SECONDS_PER_MONTH_def)

text \<open>
  C3. Scenario at the boundary \<open>now = expiresAt\<close>, where the entitlement is expired by
  the contract's own \<open>isVMExpired\<close> and \<open>isInGracePeriod\<close>, and \<open>reactivateVM\<close> refuses
  with "VM expired, use renewVM": the renewal goes through and sets the expiry to
  \<open>now + 1 * 2629800\<close>, but the Suspended entitlement stays Suspended, because the branch
  of \<open>renewVM\<close> tests \<open>block.timestamp > vm.expiresAt\<close>.
\<close>

theorem renew_at_expiry_leaves_suspended:
  "expiresAt (vms suspended 0) = 7891400 \<and> status (vms suspended 0) = SUSPENDED \<and>
   isVMExpired (call 7 7891400) 0 suspended = Inr True \<and>
   isInGracePeriod (call 7 7891400) 0 suspended = Inr True \<and>
   reactivateVM (call 7 7891400) 0 suspended = Inl (Revert ''VM expired, use renewVM'') \<and>
   (\<exists>s'. renewVM (call 7 7891400) 0 1 suspended = Inr s' \<and>
      expiresAt (vms s' 0) = 7891400 + 1 * 2629800 \<and>
      status (vms s' 0) = SUSPENDED)"
  by (simp add: demo_defs isVMExpired_def isInGracePeriod_def)

subsection \<open>Traces\<close>

lemma step_everProvisioned:
  assumes "step e oper s = Inr s'" and "everProvisioned s i"
  shows "everProvisioned s' i"
proof (cases oper)
  case (PurchaseVM tierIx months)
  with assms show ?thesis
    by (auto simp: and_then_eq_Inr dest!: purchaseVM_Inr)
next
  case (RenewVM tokenId months)
  with assms show ?thesis
    by (auto dest: renewVM_Inr(11))
qed (use assms in \<open>auto simp: op_defs and_then_eq_Inr ownerOf_eq_Inr exists_id_def emit_def
      Let_def split: if_splits\<close>)

lemma step_counter:
  assumes "step e oper s = Inr s'"
  shows "tokenIdCounter s \<le> tokenIdCounter s'"
proof (cases oper)
  case (PurchaseVM tierIx months)
  with assms show ?thesis
    by (auto simp: and_then_eq_Inr dest!: purchaseVM_Inr)
next
  case (RenewVM tokenId months)
  with assms show ?thesis
    by (auto dest: renewVM_Inr(12))
qed (use assms in \<open>auto simp: op_defs and_then_eq_Inr ownerOf_eq_Inr exists_id_def emit_def
      Let_def split: if_splits\<close>)

lemma step_owners:
  assumes "step e oper s = Inr s'" and "owners s' i \<noteq> 0"
  shows "owners s i \<noteq> 0 \<or> (i = tokenIdCounter s \<and> tokenIdCounter s < tokenIdCounter s')"
proof (cases oper)
  case (PurchaseVM tierIx months)
  with assms show ?thesis
    by (auto simp: and_then_eq_Inr dest!: purchaseVM_Inr split: if_splits)
next
  case (RenewVM tokenId months)
  with assms show ?thesis
    by (auto dest: renewVM_Inr(10))
qed (use assms in \<open>auto simp: op_defs and_then_eq_Inr ownerOf_eq_Inr exists_id_def emit_def
      Let_def split: if_splits\<close>)

lemma commit_cases:
  obtains (reverted) "commit (step e oper s) s = s"
  | (committed) s' where "step e oper s = Inr s'" and "commit (step e oper s) s = s'"
  by (cases "step e oper s") (simp_all add: commit_def)

lemma run_everProvisioned:
  "everProvisioned s i \<Longrightarrow> everProvisioned (run txs s) i"
proof (induction txs arbitrary: s)
  case Nil
  then show ?case by simp
next
  case (Cons tx txs)
  have "everProvisioned (commit (step (fst tx) (snd tx) s) s) i"
    by (cases rule: commit_cases [of "fst tx" "snd tx" s])
       (use Cons.prems step_everProvisioned in auto)
  then show ?case by (simp add: Cons.IH)
qed

text \<open>Ids are assigned from the counter: an id that has an owner is below it.\<close>

lemma run_ids_below_counter:
  assumes "\<And>i. owners s i \<noteq> 0 \<Longrightarrow> i < tokenIdCounter s"
    and "owners (run txs s) i \<noteq> 0"
  shows "i < tokenIdCounter (run txs s)"
  using assms
proof (induction txs arbitrary: s)
  case Nil
  then show ?case by simp
next
  case (Cons tx txs)
  let ?s1 = "commit (step (fst tx) (snd tx) s) s"
  have "j < tokenIdCounter ?s1" if "owners ?s1 j \<noteq> 0" for j
  proof (cases rule: commit_cases [of "fst tx" "snd tx" s])
    case reverted
    with that Cons.prems(1) show ?thesis by simp
  next
    case (committed s')
    from step_owners [OF committed(1), of j] step_counter [OF committed(1)] that Cons.prems(1) [of j]
    show ?thesis by (auto simp: committed(2))
  qed
  with Cons.IH [of ?s1] Cons.prems(2) show ?case by simp
qed


lemma deploy_Inr:
  "deploy e this tk pt tr pr = Inr s0 \<Longrightarrow> owners s0 = (\<lambda>_. 0) \<and> tokenIdCounter s0 = 0"
  by (auto simp: deploy_def split: if_splits)

lemma terminateVM_Inr:
  assumes "terminateVM e tokenId s = Inr s'"
  shows "owners s tokenId = sender e" and "owners s tokenId \<noteq> 0"
    and "status (vms s tokenId) \<noteq> TERMINATED"
    and "burn tokenId (emit (VMTerminated tokenId (sender e) (timestamp e))
           (markTerminated tokenId s)) =
         Inr (s\<lparr>vms := (vms s)(tokenId := (vms s tokenId)\<lparr>status := TERMINATED\<rparr>),
                events := events s @ [VMTerminated tokenId (sender e) (timestamp e)],
                tokenApprovals := (tokenApprovals s)(tokenId := 0),
                owners := (owners s)(tokenId := 0)\<rparr>)"
    and "s' = deleteVM tokenId
           (s\<lparr>vms := (vms s)(tokenId := (vms s tokenId)\<lparr>status := TERMINATED\<rparr>),
              events := events s @ [VMTerminated tokenId (sender e) (timestamp e)],
              tokenApprovals := (tokenApprovals s)(tokenId := 0),
              owners := (owners s)(tokenId := 0)\<rparr>)"
  using assms
  by (auto simp: op_defs and_then_eq_Inr ownerOf_eq_Inr exists_id_def emit_def Let_def
      split: if_splits)

text \<open>
  An id below the counter whose entitlement, if it still exists, has left PROVISIONING
  stays so: no entry point sets a status back to PROVISIONING, and a purchase writes a
  fresh record only at the counter.
\<close>

lemma step_past_provisioning:
  assumes "step e oper s = Inr s'" and "i < tokenIdCounter s"
    and "owners s i \<noteq> 0 \<longrightarrow> status (vms s i) \<noteq> PROVISIONING"
  shows "i < tokenIdCounter s' \<and> (owners s' i \<noteq> 0 \<longrightarrow> status (vms s' i) \<noteq> PROVISIONING)"
proof (cases oper)
  case (PurchaseVM tierIx months)
  with assms show ?thesis
    by (auto simp: and_then_eq_Inr dest!: purchaseVM_Inr)
next
  case (RenewVM tokenId months)
  with assms have r: "renewVM e tokenId months s = Inr s'" by simp
  from renewVM_Inr(8,10,12) [OF r] renewVM_Inr(13) [OF r, of i] assms(2,3)
  show ?thesis by (cases "i = tokenId") auto
qed (use assms in \<open>auto simp: op_defs and_then_eq_Inr ownerOf_eq_Inr exists_id_def emit_def
      Let_def split: if_splits\<close>)

lemma run_past_provisioning:
  assumes "i < tokenIdCounter s"
    and "owners s i \<noteq> 0 \<longrightarrow> status (vms s i) \<noteq> PROVISIONING"
  shows "i < tokenIdCounter (run txs s) \<and>
         (owners (run txs s) i \<noteq> 0 \<longrightarrow> status (vms (run txs s) i) \<noteq> PROVISIONING)"
  using assms
proof (induction txs arbitrary: s)
  case Nil
  then show ?case by simp
next
  case (Cons tx txs)
  let ?s1 = "commit (step (fst tx) (snd tx) s) s"
  have "i < tokenIdCounter ?s1 \<and> (owners ?s1 i \<noteq> 0 \<longrightarrow> status (vms ?s1 i) \<noteq> PROVISIONING)"
  proof (cases rule: commit_cases [of "fst tx" "snd tx" s])
    case reverted
    with Cons.prems show ?thesis by simp
  next
    case (committed s')
    from step_past_provisioning [OF committed(1) Cons.prems] show ?thesis
      by (simp add: committed(2))
  qed
  with Cons.IH [of ?s1] show ?case by simp
qed

subsection \<open>Provisioning write-back\<close>

text \<open>
  C1. \<open>setVMProvisioned\<close> is one-shot. After a call that went through the entitlement is
  Active, and a second call for the same id is rejected whoever sends it, whenever, and
  with whatever arguments, the first call's included (from the provisioning identity the
  reason is "VM already provisioned"); after it the stored \<open>instanceId\<close> and \<open>ipAddress\<close>
  are those of the first call. In a deployed contract the same holds later on: after any
  further transactions a call for that id is still rejected and changes nothing.
\<close>

theorem setVMProvisioned_one_shot:
  assumes "setVMProvisioned e tokenId inst ip s = Inr s'"
  shows "status (vms s' tokenId) = ACTIVE \<and>
         isl (setVMProvisioned e2 tokenId inst2 ip2 s') \<and>
         (sender e2 = provisioner s' \<longrightarrow>
            setVMProvisioned e2 tokenId inst2 ip2 s' = Inl (Revert ''VM already provisioned'')) \<and>
         instanceId (vms (commit (step e2 (SetVMProvisioned tokenId inst2 ip2) s') s') tokenId) = inst \<and>
         ipAddress (vms (commit (step e2 (SetVMProvisioned tokenId inst2 ip2) s') s') tokenId) = ip \<and>
         (\<forall>e0 this tk pt tr pr s0 pre post.
            deploy e0 this tk pt tr pr = Inr s0 \<and> s = run pre s0 \<longrightarrow>
              isl (setVMProvisioned e2 tokenId inst2 ip2 (run post s')) \<and>
              commit (step e2 (SetVMProvisioned tokenId inst2 ip2) (run post s')) (run post s')
                = run post s')"
proof -
  note first = setVMProvisioned_Inr [OF assms]
  have st: "status (vms s' tokenId) = ACTIVE" and own: "owners s' tokenId \<noteq> 0"
    and inst: "instanceId (vms s' tokenId) = inst" and ip: "ipAddress (vms s' tokenId) = ip"
    and cnt: "tokenIdCounter s' = tokenIdCounter s"
    using first(2) by (simp_all add: first(7))
  have rej: "setVMProvisioned e2 tokenId inst2 ip2 s' =
     Inl (Revert (if sender e2 \<noteq> provisioner s' then ''Only provisioner''
                  else ''VM already provisioned''))"
    using st own by (simp add: setVMProvisioned_def exists_id_def)
  then have same: "commit (step e2 (SetVMProvisioned tokenId inst2 ip2) s') s' = s'"
    by (simp add: commit_def)
  have later: "isl (setVMProvisioned e2 tokenId inst2 ip2 (run post s')) \<and>
       commit (step e2 (SetVMProvisioned tokenId inst2 ip2) (run post s')) (run post s')
         = run post s'"
    if dep: "deploy e0 this tk pt tr pr = Inr s0" and pre: "s = run pre s0"
    for e0 this tk pt tr pr s0 pre post
  proof -
    have "tokenId < tokenIdCounter s"
      using run_ids_below_counter [of s0 pre tokenId] deploy_Inr [OF dep] first(2) pre
      by simp
    with cnt st have "tokenId < tokenIdCounter s'"
      and "owners s' tokenId \<noteq> 0 \<longrightarrow> status (vms s' tokenId) \<noteq> PROVISIONING"
      by simp_all
    from run_past_provisioning [OF this, of post]
    have "isl (setVMProvisioned e2 tokenId inst2 ip2 (run post s'))"
      by (auto simp: setVMProvisioned_def exists_id_def)
    then show ?thesis by (simp add: commit_Inl)
  qed
  from st rej same inst ip later show ?thesis by simp blast
qed

theorem setVMProvisioned_one_shot_witness:
  "\<exists>s'. deploy (call 1 1000) 100 usdc 200 2 3 = Inr genesis \<and>
     setVMProvisioned (call 3 3000) 0 ''i-0abc'' ''203.0.113.9'' purchased = Inr s' \<and>
     setVMProvisioned (call 3 3001) 0 ''i-0abc'' ''203.0.113.9'' s' =
       Inl (Revert ''VM already provisioned'') \<and>
     instanceId (vms (commit (step (call 3 3001)
        (SetVMProvisioned 0 ''i-0abc'' ''203.0.113.9'') s') s') 0) = ''i-0abc'' \<and>
     ipAddress (vms (commit (step (call 3 3001)
        (SetVMProvisioned 0 ''i-0abc'' ''203.0.113.9'') s') s') 0) = ''203.0.113.9'' \<and>
     isl (setVMProvisioned (call 3 5000) 0 ''i-0abc'' ''203.0.113.9''
            (run [(call 7 4000, SuspendVM 0), (call 7 4500, ReactivateVM 0)] s'))"
proof -
  have dep: "deploy (call 1 1000) 100 usdc 200 2 3 = Inr genesis"
    by (simp add: deploy_def genesis_def call_def)
  have pre: "purchased =
      run [(call 7 1000, TokenApprove 100 1000000000), (call 7 2000, PurchaseVM 2 3)] genesis"
    by (simp add: purchased_def funded_def)
  obtain s' where ok: "setVMProvisioned (call 3 3000) 0 ''i-0abc'' ''203.0.113.9'' purchased = Inr s'"
    by (simp add: demo_defs)
  have "provisioner purchased = 3" by (simp add: demo_defs)
  with setVMProvisioned_Inr(7) [OF ok] have prov: "sender (call 3 3001) = provisioner s'"
    by (simp add: call_def)
  note t1 = setVMProvisioned_one_shot [OF ok, of "call 3 3001" "''i-0abc''" "''203.0.113.9''"]
  note t2 = setVMProvisioned_one_shot [OF ok, of "call 3 5000" "''i-0abc''" "''203.0.113.9''"]
  from t2 dep pre
  have "isl (setVMProvisioned (call 3 5000) 0 ''i-0abc'' ''203.0.113.9''
            (run [(call 7 4000, SuspendVM 0), (call 7 4500, ReactivateVM 0)] s'))"
    by blast
  with t1 prov dep ok show ?thesis by blast
qed

text \<open>
  C10. \<open>everProvisioned\<close> is sticky. Once a \<open>setVMProvisioned\<close> call has gone through
  for an id, the flag of that id is true after every sequence of transactions, of whatever
  kind and whether they go through or revert. In particular a later \<open>terminateVM\<close> of the
  id deletes the entitlement record (the slot reads as the zero value and the id no longer
  exists) and leaves the flag true, for good.
\<close>

theorem everProvisioned_sticky:
  assumes "setVMProvisioned e tokenId inst ip s = Inr s'"
  shows "everProvisioned (run txs s') tokenId \<and>
         (\<forall>e2 s''. terminateVM e2 tokenId (run txs s') = Inr s'' \<longrightarrow>
            vms s'' tokenId = zeroVM \<and> \<not> exists_id s'' tokenId \<and>
            everProvisioned s'' tokenId \<and>
            (\<forall>txs2. everProvisioned (run txs2 s'') tokenId))"
proof -
  have "everProvisioned s' tokenId"
    by (simp add: setVMProvisioned_Inr(7) [OF assms])
  then have later: "everProvisioned (run txs s') tokenId"
    by (rule run_everProvisioned)
  have "vms s'' tokenId = zeroVM \<and> \<not> exists_id s'' tokenId \<and>
        everProvisioned s'' tokenId \<and> (\<forall>txs2. everProvisioned (run txs2 s'') tokenId)"
    if t: "terminateVM e2 tokenId (run txs s') = Inr s''" for e2 s''
  proof -
    have "step e2 (TerminateVM tokenId) (run txs s') = Inr s''"
      using t by simp
    from step_everProvisioned [OF this later] have "everProvisioned s'' tokenId" .
    moreover from this have "\<forall>txs2. everProvisioned (run txs2 s'') tokenId"
      by (simp add: run_everProvisioned)
    moreover have "vms s'' tokenId = zeroVM \<and> \<not> exists_id s'' tokenId"
      by (simp add: terminateVM_Inr(5) [OF t] deleteVM_def exists_id_def)
    ultimately show ?thesis by blast
  qed
  with later show ?thesis by blast
qed

theorem everProvisioned_sticky_witness:
  "\<exists>s' s''. setVMProvisioned (call 3 3000) 0 ''i-0abc'' ''203.0.113.9'' purchased = Inr s' \<and>
      terminateVM (call 7 5000) 0 (run [(call 7 4000, SuspendVM 0)] s') = Inr s'' \<and>
      everProvisioned (run [(call 7 4000, SuspendVM 0)] s') 0 \<and>
      vms s'' 0 = zeroVM \<and> \<not> exists_id s'' 0 \<and> everProvisioned s'' 0"
proof -
  obtain s' where ok: "setVMProvisioned (call 3 3000) 0 ''i-0abc'' ''203.0.113.9'' purchased = Inr s'"
    by (simp add: demo_defs)
  then have s': "s' = provisioned"
    by (simp add: provisioned_def commit_def)
  obtain s'' where t: "terminateVM (call 7 5000) 0 (run [(call 7 4000, SuspendVM 0)] s') = Inr s''"
    unfolding s' by (simp add: demo_defs)
  from everProvisioned_sticky [OF ok, of "[(call 7 4000, SuspendVM 0)]"] ok t
  show ?thesis by blast
qed

subsection \<open>Termination\<close>




section \<open>Properties of the reconciler\<close>

subsection \<open>The polling loop and what a delivery touches\<close>

lemma poll_frame:
  "poll c inst ip a w = (r, w') \<Longrightarrow>
     instances w' = instances w \<and> ledger w' = ledger w \<and> status_log w' = status_log w \<and>
     describes w \<le> describes w' \<and> describes w' \<le> describes w + (30 - a) \<and>
     slept_ms w' = slept_ms w + 2000 * (describes w' - describes w)"
proof (induction c inst ip a w arbitrary: r w' rule: poll.induct)
  case (1 c inst publicIP attempts w)
  show ?case
  proof (cases "falsy publicIP \<and> attempts < 30")
    case False
    with "1.prems" show ?thesis by (auto simp: poll.simps [of c inst publicIP attempts w])
  next
    case True
    show ?thesis
    proof (cases "aws_describeInstances c inst attempts")
      case (Throws msg)
      with True "1.prems" show ?thesis
        by (auto simp: poll.simps [of c inst publicIP attempts w])
    next
      case (Returns ip)
      with True "1.prems" have rec: "poll c inst ip (attempts + 1)
          (w\<lparr>slept_ms := slept_ms w + 2000, describes := describes w + 1\<rparr>) = (r, w')"
        by (simp add: poll.simps [of c inst publicIP attempts w])
      from "1.IH" [OF True Returns rec] True
      show ?thesis by auto
    qed
  qed
qed

lemma poll_status_log:
  "poll c inst ip a (w\<lparr>status_log := l\<rparr>) =
     (fst (poll c inst ip a w), (snd (poll c inst ip a w))\<lparr>status_log := l\<rparr>)"
proof (induction c inst ip a w rule: poll.induct)
  case (1 c inst publicIP attempts w)
  show ?case
  proof (cases "falsy publicIP \<and> attempts < 30")
    case False
    then show ?thesis
      by (auto simp: poll.simps [of c inst publicIP attempts])
  next
    case True
    show ?thesis
    proof (cases "aws_describeInstances c inst attempts")
      case (Throws msg)
      with True show ?thesis
        by (simp add: poll.simps [of c inst publicIP attempts])
    next
      case (Returns ip)
      have comm: "w\<lparr>status_log := l, slept_ms := x, describes := y\<rparr>
        = w\<lparr>slept_ms := x, describes := y, status_log := l\<rparr>" for x y
        by (cases w) simp
      from "1.IH" [OF True Returns] True Returns
      show ?thesis
        by (simp add: poll.simps [of c inst publicIP attempts] comm)
    qed
  qed
qed





lemma status_log_past_instances:
  "w\<lparr>status_log := l, instances := x\<rparr> = w\<lparr>instances := x, status_log := l\<rparr>"
  by (cases w) simp

lemma status_log_past_ledger:
  "w\<lparr>status_log := l, ledger := x\<rparr> = w\<lparr>ledger := x, status_log := l\<rparr>"
  by (cases w) simp

lemma provisionAWS_frame:
  assumes "provisionAWS c tokenId tierName w = (r, w')"
  shows "(\<exists>new. instances w' = instances w @ new \<and> length new \<le> 1 \<and>
            map token_of new = replicate (length new) tokenId) \<and>
         ledger w' = ledger w \<and> status_log w' = status_log w \<and>
         describes w \<le> describes w' \<and> describes w' \<le> describes w + 30 \<and>
         slept_ms w' = slept_ms w + 2000 * (describes w' - describes w)"
proof (cases "case tierName of None \<Rightarrow> None | Some name \<Rightarrow> VM_CONFIGS name")
  case None
  with assms show ?thesis by (simp add: provisionAWS_def)
next
  case (Some cfg)
  show ?thesis
  proof (cases "aws_runInstances c (instances w) tokenId")
    case (Throws msg)
    with Some assms show ?thesis by (simp add: provisionAWS_def)
  next
    case (Returns inst)
    let ?w1 = "w\<lparr>instances := instances w @
                 [\<lparr>provider_of = ''aws'', token_of = tokenId, instance_of = inst,
                   machine_of = machineType (snd cfg)\<rparr>]\<rparr>"
    obtain r2 w2 where p: "poll c inst None 0 ?w1 = (r2, w2)"
      by (cases "poll c inst None 0 ?w1")
    with Some Returns assms have "w' = w2"
      by (auto simp: provisionAWS_def Let_def split: reply.splits if_splits)
    with poll_frame [OF p] show ?thesis by simp
  qed
qed

lemma provisionGCP_frame:
  assumes "provisionGCP c tokenId tierName w = (r, w')"
  shows "(\<exists>new. instances w' = instances w @ new \<and> length new \<le> 1 \<and>
            map token_of new = replicate (length new) tokenId) \<and>
         ledger w' = ledger w \<and> status_log w' = status_log w \<and>
         describes w' = describes w \<and> slept_ms w' = slept_ms w"
  using assms
  by (auto simp: provisionGCP_def Let_def split: option.splits reply.splits)

lemma provisionVM_frame:
  assumes "provisionVM cfg c tokenId tierName w = (r, w')"
  shows "(\<exists>new. instances w' = instances w @ new \<and> length new \<le> 1 \<and>
            map token_of new = replicate (length new) tokenId) \<and>
         ledger w' = ledger w \<and> status_log w' = status_log w \<and>
         describes w \<le> describes w' \<and> describes w' \<le> describes w + 30 \<and>
         slept_ms w' = slept_ms w + 2000 * (describes w' - describes w)"
proof -
  let ?provider = "case PREFERRED_PROVIDER cfg of None \<Rightarrow> ''gcp''
                   | Some p \<Rightarrow> if p = [] then ''gcp'' else p"
  consider (gcp) "?provider = ''gcp''" | (aws) "?provider = ''aws''"
    | (other) "?provider \<noteq> ''gcp''" "?provider \<noteq> ''aws''" by blast
  then show ?thesis
  proof cases
    case gcp
    with assms obtain r1 where "provisionGCP c tokenId tierName w = (r1, w')"
      by (cases "provisionGCP c tokenId tierName w")
         (auto simp: provisionVM_def Let_def split: reply.splits)
    from provisionGCP_frame [OF this] show ?thesis by simp
  next
    case aws
    with assms obtain r1 where "provisionAWS c tokenId tierName w = (r1, w')"
      by (cases "provisionAWS c tokenId tierName w")
         (auto simp: provisionVM_def Let_def split: reply.splits)
    from provisionAWS_frame [OF this] show ?thesis by simp
  next
    case other
    with assms have "w' = w" by (simp add: provisionVM_def Let_def)
    then show ?thesis by simp
  qed
qed

lemma writeBack_frame:
  "writeBack e tokenId inst ip w = (r, w') \<Longrightarrow>
     instances w' = instances w \<and> status_log w' = status_log w \<and>
     describes w' = describes w \<and> slept_ms w' = slept_ms w"
  by (auto simp: writeBack_def split: option.splits sum.splits)

lemma handleVMPurchased_frame:
  "\<exists>new st. instances (handleVMPurchased cfg c e tokenId tierIx w) = instances w @ new \<and>
     length new \<le> 1 \<and> map token_of new = replicate (length new) tokenId \<and>
     status_log (handleVMPurchased cfg c e tokenId tierIx w) = status_log w @ [(tokenId, st)] \<and>
     describes w \<le> describes (handleVMPurchased cfg c e tokenId tierIx w) \<and>
     describes (handleVMPurchased cfg c e tokenId tierIx w) \<le> describes w + 30 \<and>
     slept_ms (handleVMPurchased cfg c e tokenId tierIx w) =
       slept_ms w + 2000 * (describes (handleVMPurchased cfg c e tokenId tierIx w) - describes w)"
proof -
  obtain r1 w1 where p: "provisionVM cfg c tokenId (tier_name tierIx) w = (r1, w1)"
    by (cases "provisionVM cfg c tokenId (tier_name tierIx) w")
  note f1 = provisionVM_frame [OF p]
  show ?thesis
  proof (cases r1)
    case (Failure msg)
    with p f1 show ?thesis
      by (simp add: handleVMPurchased_def handleVMPurchased_try_def updateVMStatus_def)
  next
    case (Success inst ip prov)
    obtain r2 w2 where wb: "writeBack e tokenId inst ip w1 = (r2, w2)"
      by (cases "writeBack e tokenId inst ip w1")
    note f2 = writeBack_frame [OF wb]
    from Success p wb f1 f2 show ?thesis
      by (cases r2)
         (simp_all add: handleVMPurchased_def handleVMPurchased_try_def updateVMStatus_def)
  qed
qed

subsection \<open>The status store is never read\<close>

lemma provisionGCP_status_log:
  "provisionGCP c tokenId tierName (w\<lparr>status_log := l\<rparr>) =
     (fst (provisionGCP c tokenId tierName w),
      (snd (provisionGCP c tokenId tierName w))\<lparr>status_log := l\<rparr>)"
  by (simp add: provisionGCP_def Let_def status_log_past_instances
      split: option.splits reply.splits)

lemma provisionAWS_status_log:
  "provisionAWS c tokenId tierName (w\<lparr>status_log := l\<rparr>) =
     (fst (provisionAWS c tokenId tierName w),
      (snd (provisionAWS c tokenId tierName w))\<lparr>status_log := l\<rparr>)"
proof (cases "case tierName of None \<Rightarrow> None | Some name \<Rightarrow> VM_CONFIGS name")
  case None
  then show ?thesis by (simp add: provisionAWS_def)
next
  case (Some cfg)
  show ?thesis
  proof (cases "aws_runInstances c (instances w) tokenId")
    case (Throws msg)
    with Some show ?thesis by (simp add: provisionAWS_def)
  next
    case (Returns inst)
    let ?w1 = "w\<lparr>instances := instances w @
                 [\<lparr>provider_of = ''aws'', token_of = tokenId, instance_of = inst,
                   machine_of = machineType (snd cfg)\<rparr>]\<rparr>"
    obtain r2 w2 where p: "poll c inst None 0 ?w1 = (r2, w2)"
      by (cases "poll c inst None 0 ?w1")
    have p': "poll c inst None 0 (?w1\<lparr>status_log := l\<rparr>) = (r2, w2\<lparr>status_log := l\<rparr>)"
      by (simp add: poll_status_log p)
    from Some Returns p p' show ?thesis
      by (cases r2) (simp_all add: provisionAWS_def Let_def status_log_past_instances)
  qed
qed

lemma provisionVM_status_log:
  "provisionVM cfg c tokenId tierName (w\<lparr>status_log := l\<rparr>) =
     (fst (provisionVM cfg c tokenId tierName w),
      (snd (provisionVM cfg c tokenId tierName w))\<lparr>status_log := l\<rparr>)"
  by (simp add: provisionVM_def Let_def provisionGCP_status_log provisionAWS_status_log
      split: option.splits reply.splits prod.splits)

lemma writeBack_status_log:
  "writeBack e tokenId inst ip (w\<lparr>status_log := l\<rparr>) =
     (fst (writeBack e tokenId inst ip w),
      (snd (writeBack e tokenId inst ip w))\<lparr>status_log := l\<rparr>)"
  by (simp add: writeBack_def status_log_past_ledger split: option.splits sum.splits)

lemma handleVMPurchased_status_log:
  "\<exists>st. status_log (handleVMPurchased cfg c e tokenId tierIx w) = status_log w @ [(tokenId, st)] \<and>
        (\<forall>l. handleVMPurchased cfg c e tokenId tierIx (w\<lparr>status_log := l\<rparr>) =
              (handleVMPurchased cfg c e tokenId tierIx w)\<lparr>status_log := l @ [(tokenId, st)]\<rparr>)"
proof -
  obtain r1 w1 where p: "provisionVM cfg c tokenId (tier_name tierIx) w = (r1, w1)"
    by (cases "provisionVM cfg c tokenId (tier_name tierIx) w")
  have log1: "status_log w1 = status_log w"
    using provisionVM_frame [OF p] by simp
  have p': "provisionVM cfg c tokenId (tier_name tierIx) (w\<lparr>status_log := l\<rparr>) =
              (r1, w1\<lparr>status_log := l\<rparr>)" for l
    by (simp add: provisionVM_status_log p)
  show ?thesis
  proof (cases r1)
    case (Failure msg)
    with p p' log1 show ?thesis
      by (simp add: handleVMPurchased_def handleVMPurchased_try_def updateVMStatus_def)
  next
    case (Success inst ip prov)
    obtain r2 w2 where wb: "writeBack e tokenId inst ip w1 = (r2, w2)"
      by (cases "writeBack e tokenId inst ip w1")
    have log2: "status_log w2 = status_log w"
      using writeBack_frame [OF wb] log1 by simp
    have wb': "writeBack e tokenId inst ip (w1\<lparr>status_log := l\<rparr>) = (r2, w2\<lparr>status_log := l\<rparr>)"
      for l
      by (simp add: writeBack_status_log wb)
    from Success p p' wb wb' log2 show ?thesis
      by (cases r2)
         (simp_all add: handleVMPurchased_def handleVMPurchased_try_def updateVMStatus_def)
  qed
qed


lemmas cloud_defs = aws_config_def prompt_cloud_def silent_cloud_def world0_def
  redelivered_def handleVMPurchased_def handleVMPurchased_try_def provisionVM_def
  provisionAWS_def writeBack_def updateVMStatus_def tier_name_def TIER_NAMES_def
  VM_CONFIGS_def falsy_def

subsection \<open>Address polling\<close>




subsection \<open>Redelivery of a purchase event\<close>

text \<open>
  C2, as stated, fails: the handler never reads the status store. With a provider that
  creates an instance per request, the same event delivered twice creates two instances
  for id 0; the first delivery ends \<open>running\<close>, the second ends \<open>error\<close> because the
  ledger refuses the second write-back, and the ledger keeps the first instance.
\<close>

theorem redelivery_creates_a_second_instance:
  "map instance_of (instances redelivered) = [''i-0'', ''i-1''] \<and>
   map token_of (instances redelivered) = [0, 0] \<and>
   map (\<lambda>entry. (fst entry, status_name (snd entry))) (status_log redelivered) =
     [(0, ''running''), (0, ''error'')] \<and>
   instanceId (vms (ledger redelivered) 0) = ''i-0'' \<and>
   \<not> length (filter (\<lambda>i. token_of i = 0) (instances redelivered)) \<le> 1"
  by (simp add: cloud_defs demo_defs toString.simps poll.simps)

text \<open>
  C2, amended. Each delivery of a purchase event creates at most one cloud instance, for
  the id of the event, so two deliveries of the same event create at most two. The handler
  does not consult the status store: it appends one entry, and what it does to the cloud,
  to the ledger and to the log is the same whatever the store held before.
\<close>

theorem each_delivery_creates_at_most_one_instance:
  "(\<exists>new. instances (handleVMPurchased cfg c e tokenId tierIx w) = instances w @ new \<and>
          length new \<le> 1 \<and> map token_of new = replicate (length new) tokenId) \<and>
   (\<exists>new. instances (handleVMPurchased cfg c e' tokenId tierIx
                      (handleVMPurchased cfg c e tokenId tierIx w)) = instances w @ new \<and>
          length new \<le> 2 \<and> map token_of new = replicate (length new) tokenId) \<and>
   (\<exists>st. status_log (handleVMPurchased cfg c e tokenId tierIx w) =
            status_log w @ [(tokenId, st)] \<and>
         (\<forall>l. handleVMPurchased cfg c e tokenId tierIx (w\<lparr>status_log := l\<rparr>) =
               (handleVMPurchased cfg c e tokenId tierIx w)\<lparr>status_log := l @ [(tokenId, st)]\<rparr>))"
proof -
  let ?w1 = "handleVMPurchased cfg c e tokenId tierIx w"
  from handleVMPurchased_frame [of cfg c e tokenId tierIx w] obtain new1 where
    n1: "instances ?w1 = instances w @ new1" "length new1 \<le> 1"
      "map token_of new1 = replicate (length new1) tokenId" by blast
  from handleVMPurchased_frame [of cfg c e' tokenId tierIx ?w1] obtain new2 where
    n2: "instances (handleVMPurchased cfg c e' tokenId tierIx ?w1) = instances ?w1 @ new2"
      "length new2 \<le> 1" "map token_of new2 = replicate (length new2) tokenId" by blast
  have "instances (handleVMPurchased cfg c e' tokenId tierIx ?w1) = instances w @ (new1 @ new2)
        \<and> length (new1 @ new2) \<le> 2
        \<and> map token_of (new1 @ new2) = replicate (length (new1 @ new2)) tokenId"
    using n1 n2 by (simp add: replicate_add)
  then have two: "\<exists>new. instances (handleVMPurchased cfg c e' tokenId tierIx ?w1) =
                    instances w @ new \<and> length new \<le> 2 \<and>
                    map token_of new = replicate (length new) tokenId"
    by blast
  from n1 two handleVMPurchased_status_log [of cfg c e tokenId tierIx w]
  show ?thesis by blast
qed

theorem each_delivery_creates_at_most_one_instance_witness:
  "map instance_of (instances (handleVMPurchased aws_config prompt_cloud (call 3 3000) 0 2 world0))
     = [''i-0''] \<and>
   status_log (handleVMPurchased aws_config prompt_cloud (call 3 3000) 0 2
      (world0\<lparr>status_log := [(0, StatusRunning ''i-9'' (Some ''198.51.100.7'') ''aws'')]\<rparr>)) =
     [(0, StatusRunning ''i-9'' (Some ''198.51.100.7'') ''aws''),
      (0, StatusRunning ''i-0'' (Some ''203.0.113.9'') ''aws'')] \<and>
   map instance_of (instances (handleVMPurchased aws_config prompt_cloud (call 3 3000) 0 2
      (world0\<lparr>status_log := [(0, StatusRunning ''i-9'' (Some ''198.51.100.7'') ''aws'')]\<rparr>)))
     = [''i-0'']"
proof -
  have one: "map instance_of
      (instances (handleVMPurchased aws_config prompt_cloud (call 3 3000) 0 2 world0)) = [''i-0'']"
    and log: "status_log (handleVMPurchased aws_config prompt_cloud (call 3 3000) 0 2 world0) =
      [(0, StatusRunning ''i-0'' (Some ''203.0.113.9'') ''aws'')]"
    and empty: "status_log world0 = []"
    by (simp_all add: cloud_defs demo_defs toString.simps poll.simps)
  from each_delivery_creates_at_most_one_instance
         [of aws_config prompt_cloud "call 3 3000" 0 2 world0] log empty
  have "handleVMPurchased aws_config prompt_cloud (call 3 3000) 0 2
          (world0\<lparr>status_log := [(0, StatusRunning ''i-9'' (Some ''198.51.100.7'') ''aws'')]\<rparr>) =
        (handleVMPurchased aws_config prompt_cloud (call 3 3000) 0 2 world0)
          \<lparr>status_log := [(0, StatusRunning ''i-9'' (Some ''198.51.100.7'') ''aws'')] @
             [(0, StatusRunning ''i-0'' (Some ''203.0.113.9'') ''aws'')]\<rparr>"
    by auto
  with one show ?thesis by simp
qed

end
